theory Spec2Isabelle
  imports Complex_Main "HOL-Library.Multiset"
begin

section \<open>Reading plans manager: data model\<close>

text \<open>
  The development embeds \<^verbatim>\<open>public/js/reading-plans.js\<close> (the object \<^verbatim>\<open>ReadingPlans\<close>).

  Conventions of the embedding.
  \<^item> A JavaScript \<^verbatim>\<open>Date\<close> is its time value: the number of milliseconds since the epoch,
    an integer. Invalid dates (time value NaN) are outside the model. Calendar days and
    times of day are those of UTC.
  \<^item> The source subtracts and divides time values in double precision.
    \<open>calculateDayNumber\<close> below computes with exact integers; \<open>calculateDayNumberIEEE\<close>
    repeats the same lines with every result rounded to a double. The two agree as long
    as the difference of the two time values is below \<open>2 ^ 53\<close> in magnitude
    (\<open>calculateDayNumberIEEE_exact\<close>), and the statements that speak about all dates
    carry that bound.
  \<^item> An object property that the source treats as possibly missing is an \<open>option\<close>
    (\<open>None\<close> is \<^verbatim>\<open>undefined\<close>). The \<^verbatim>\<open>day\<close> fields are integers.
  \<^item> Mutation of \<^verbatim>\<open>this\<close> and of the external \<^verbatim>\<open>StorageManager\<close> is explicit state
    passing: every operation returns the state it leaves behind.
  \<^item> The public operations return a sum, \<open>Inl\<close> standing for a thrown exception.
\<close>

subsection \<open>JavaScript primitives used by the source\<close>

text \<open>\<^verbatim>\<open>a % b\<close> on integers: the remainder of the division truncated towards zero; its sign is
  the sign of the dividend. (For \<open>b = 0\<close> JavaScript yields NaN; every call site of the source
  passes 90 or 365, and no statement below uses \<open>js_rem\<close> with a zero divisor.)\<close>

definition js_rem :: "int \<Rightarrow> int \<Rightarrow> int" where
  "js_rem a b = sgn a * (\<bar>a\<bar> mod \<bar>b\<bar>)"

text \<open>Truthiness of an optional string: \<^verbatim>\<open>undefined\<close> and the empty string are falsy.\<close>

definition truthy :: "string option \<Rightarrow> bool" where
  "truthy s = (case s of None \<Rightarrow> False | Some v \<Rightarrow> v \<noteq> [])"

text \<open>\<^verbatim>\<open>a || b\<close> on optional strings.\<close>

definition js_or :: "string option \<Rightarrow> string option \<Rightarrow> string option" where
  "js_or a b = (if truthy a then a else b)"

text \<open>\<^verbatim>\<open>x.chapters || 3\<close>: a missing or zero chapter count is replaced by 3.\<close>

definition chaptersOr3 :: "int option \<Rightarrow> int" where
  "chaptersOr3 c = (case c of None \<Rightarrow> 3 | Some n \<Rightarrow> if n = 0 then 3 else n)"

text \<open>Interpolation of a value in a template literal: decimal digits for an integer,
  the text \<^verbatim>\<open>undefined\<close> for a missing string.\<close>

fun showNat :: "nat \<Rightarrow> string" where
  "showNat n =
     (if n < 10 then [''0123456789'' ! n]
      else showNat (n div 10) @ [''0123456789'' ! (n mod 10)])"

declare showNat.simps [simp del]

definition showInt :: "int \<Rightarrow> string" where
  "showInt i = (if i < 0 then ''-'' @ showNat (nat (- i)) else showNat (nat i))"

definition showStr :: "string option \<Rightarrow> string" where
  "showStr s = (case s of None \<Rightarrow> ''undefined'' | Some v \<Rightarrow> v)"

subsection \<open>Plan documents and tables\<close>

text \<open>An entry of the NT90 schedule, and a day entry inside a month of the raw OT365 document.\<close>

record dayEntry =
  de_day :: int
  de_reading :: "string option"
  de_theme :: "string option"
  de_chapters :: "int option"

text \<open>A month group of the raw OT365 document; \<open>mp_days = None\<close> when \<^verbatim>\<open>days\<close> is missing
  or not an array.\<close>

record monthPlan =
  mp_month :: "string option"
  mp_focus :: "string option"
  mp_days :: "dayEntry list option"

text \<open>The raw OT365 document; \<open>None\<close> when \<^verbatim>\<open>monthlyPlans\<close> is missing or not an array.\<close>

record ot365Document =
  monthlyPlans :: "monthPlan list option"

text \<open>A record of the flattened OT365 table, as pushed by \<^verbatim>\<open>flattenOT365Plan\<close>.\<close>

record flatEntry =
  fe_day :: int
  fe_reading :: "string option"
  fe_theme :: "string option"
  fe_month :: "string option"
  fe_focus :: "string option"
  fe_chapters :: int

text \<open>A reading of an Ethiopian month (its \<^verbatim>\<open>day\<close> is relative to the month) and a month.\<close>

record ethReading =
  er_day :: int
  er_reading :: "string option"
  er_theme :: "string option"
  er_feast :: "string option"
  er_chapters :: "int option"

record ethMonth =
  em_name :: "string option"
  em_feast :: "string option"
  em_readings :: "ethReading list option"

text \<open>The object returned for a date. A property that a path does not set is \<open>None\<close>.\<close>

record assignment =
  a_day :: int
  a_title :: string
  a_passages :: "string option list"
  a_theme :: "string option"
  a_month :: "string option"
  a_focus :: "string option"
  a_feast :: "string option"
  a_chapters :: int

subsection \<open>State\<close>

text \<open>Modelled from the spec: \<^verbatim>\<open>StorageManager\<close> is not part of the source file. The spec
  describes it as an external key-value store with \<^verbatim>\<open>getCurrentPlan() -> PlanType\<close>,
  \<^verbatim>\<open>getStartDate(planType) -> Date|null\<close> and \<^verbatim>\<open>setStartDate(planType, Date) -> void\<close>.
  The store is a record holding the current plan and a map from plan type to start date
  (as a time value); \<open>None\<close> is a start date that is not stored.\<close>

record storage =
  sm_currentPlan :: string
  sm_startDates :: "string \<Rightarrow> int option"

definition getCurrentPlan :: "storage \<Rightarrow> string" where
  "getCurrentPlan sm = sm_currentPlan sm"

definition getStartDate :: "storage \<Rightarrow> string \<Rightarrow> int option" where
  "getStartDate sm planType = sm_startDates sm planType"

definition setStartDate :: "storage \<Rightarrow> string \<Rightarrow> int \<Rightarrow> storage" where
  "setStartDate sm planType d = sm\<lparr>sm_startDates := (sm_startDates sm)(planType \<mapsto> d)\<rparr>"

text \<open>The fields of \<^verbatim>\<open>ReadingPlans\<close>, together with the store it talks to.\<close>

record readingPlans =
  nt90Plan :: "dayEntry list"
  ot365Plan :: "flatEntry list"
  ethiopianPlan :: "ethMonth list"
  currentPlanType :: string
  storage :: storage

section \<open>Operations\<close>

subsection \<open>calculateDayNumber\<close>

definition msPerDay :: int where
  "msPerDay = 1000 * 60 * 60 * 24"

text \<open>The last line of \<^verbatim>\<open>calculateDayNumber\<close>.\<close>

definition cycleDay :: "int \<Rightarrow> int \<Rightarrow> int" where
  "cycleDay diffDays totalDays = js_rem (js_rem diffDays totalDays + totalDays) totalDays + 1"

definition calculateDayNumber :: "readingPlans \<Rightarrow> int \<Rightarrow> int \<Rightarrow> int \<times> readingPlans" where
  "calculateDayNumber rp date totalDays =
     (case getStartDate (storage rp) (currentPlanType rp) of
        None \<Rightarrow> (1, rp\<lparr>storage := setStartDate (storage rp) (currentPlanType rp) date\<rparr>)
      | Some startDate \<Rightarrow>
          (let diffTime = date - startDate;
               diffDays = diffTime div msPerDay
           in (cycleDay diffDays totalDays, rp)))"

subsection \<open>calculateDayNumber in double precision\<close>

text \<open>JavaScript numbers are IEEE 754 binary64 values, and the result of every arithmetic
  operation is the exact result rounded to the nearest double, ties going to the double
  with an even significand. The numbers met here (differences of time values and their
  quotients by the length of a day) are zero or normal numbers far from overflow, and a
  normal double is an integer of magnitude in \<open>[2 ^ 52, 2 ^ 53)\<close> times a power of two.

  \<open>nearestEven\<close> rounds a rational to the nearest integer, ties to the even one.\<close>

definition nearestEven :: "rat \<Rightarrow> int" where
  "nearestEven x =
     (let f = \<lfloor>x\<rfloor>; r = x - of_int f
      in if r < 1 / 2 then f
         else if 1 / 2 < r then f + 1
         else if even f then f else f + 1)"

text \<open>\<open>roundSignificand\<close> halves or doubles its argument until the magnitude lies in
  \<open>[2 ^ 52, 2 ^ 53)\<close>, rounds there with \<open>nearestEven\<close>, and scales back. The first
  argument bounds the number of scaling steps; 2200 steps reach that interval from every
  finite non-zero double magnitude (from \<open>2 ^ - 1074\<close> up to \<open>2 ^ 1024\<close>).\<close>

fun roundSignificand :: "nat \<Rightarrow> rat \<Rightarrow> rat" where
  "roundSignificand 0 x = x"
| "roundSignificand (Suc n) x =
     (if 2 ^ 53 \<le> \<bar>x\<bar> then 2 * roundSignificand n (x / 2)
      else if \<bar>x\<bar> < 2 ^ 52 then roundSignificand n (2 * x) / 2
      else of_int (nearestEven x))"

definition toDouble :: "rat \<Rightarrow> rat" where
  "toDouble x = (if x = 0 then 0 else roundSignificand 2200 x)"

text \<open>Lines 248 and 249 of the source: \<^verbatim>\<open>date.getTime() - startDate.getTime()\<close> is rounded,
  the quotient by 86400000 is rounded, and \<^verbatim>\<open>Math.floor\<close> is exact. The time values
  themselves are integers below \<open>2 ^ 53\<close> in magnitude (a valid \<^verbatim>\<open>Date\<close> is within
  8640000000000000 ms of the epoch), hence doubles.\<close>

definition diffDaysIEEE :: "int \<Rightarrow> int \<Rightarrow> int" where
  "diffDaysIEEE date startDate =
     (let diffTime = toDouble (of_int date - of_int startDate)
      in \<lfloor>toDouble (diffTime / of_int msPerDay)\<rfloor>)"

text \<open>\<^verbatim>\<open>calculateDayNumber\<close> with these elapsed days. The closing formula works on integers
  of small magnitude, on which the double operations \<^verbatim>\<open>%\<close> and \<^verbatim>\<open>+\<close> are exact.\<close>

definition calculateDayNumberIEEE :: "readingPlans \<Rightarrow> int \<Rightarrow> int \<Rightarrow> int \<times> readingPlans" where
  "calculateDayNumberIEEE rp date totalDays =
     (case getStartDate (storage rp) (currentPlanType rp) of
        None \<Rightarrow> (1, rp\<lparr>storage := setStartDate (storage rp) (currentPlanType rp) date\<rparr>)
      | Some startDate \<Rightarrow> (cycleDay (diffDaysIEEE date startDate) totalDays, rp))"

subsection \<open>flattenOT365Plan\<close>

text \<open>The object pushed for one day entry of one month group.\<close>

definition flatRecord :: "monthPlan \<Rightarrow> dayEntry \<Rightarrow> flatEntry" where
  "flatRecord monthPlan day =
     \<lparr>fe_day = de_day day,
      fe_reading = de_reading day,
      fe_theme = de_theme day,
      fe_month = mp_month monthPlan,
      fe_focus = mp_focus monthPlan,
      fe_chapters = chaptersOr3 (de_chapters day)\<rparr>"

text \<open>The body of the outer \<^verbatim>\<open>forEach\<close>: the inner \<^verbatim>\<open>forEach\<close> pushes one record per day.\<close>

definition pushDays :: "flatEntry list \<Rightarrow> monthPlan \<Rightarrow> flatEntry list" where
  "pushDays flatPlan monthPlan =
     (case mp_days monthPlan of
        None \<Rightarrow> flatPlan
      | Some days \<Rightarrow> foldl (\<lambda>acc day. acc @ [flatRecord monthPlan day]) flatPlan days)"

text \<open>\<^verbatim>\<open>flatPlan.sort((a, b) => a.day - b.day)\<close>: \<^verbatim>\<open>Array.prototype.sort\<close> is a stable sort,
  and on integer keys the comparator is a total preorder, so that the result is the stable
  sort by \<^verbatim>\<open>day\<close>, which \<open>sort_key\<close> computes.\<close>

definition flattenOT365Plan :: "ot365Document \<Rightarrow> flatEntry list" where
  "flattenOT365Plan data =
     (let flatPlan = (case monthlyPlans data of
                        None \<Rightarrow> []
                      | Some mps \<Rightarrow> foldl pushDays [] mps)
      in sort_key fe_day flatPlan)"

subsection \<open>getFallbackReading\<close>

definition getFallbackReading ::
  "readingPlans \<Rightarrow> int \<Rightarrow> int \<Rightarrow> string \<Rightarrow> assignment \<times> readingPlans" where
  "getFallbackReading rp date totalDays testament =
     (case calculateDayNumber rp date totalDays of
        (dayNumber, rp') \<Rightarrow>
          if testament = ''OT'' then
            (\<lparr>a_day = dayNumber,
              a_title = ''OT365 Day '' @ showInt dayNumber,
              a_passages = [Some ''Genesis 1-3''],
              a_theme = Some ''Creation & Fall'',
              a_month = None, a_focus = None, a_feast = None,
              a_chapters = 3\<rparr>, rp')
          else
            (\<lparr>a_day = dayNumber,
              a_title = ''NT90 Day '' @ showInt dayNumber,
              a_passages = [Some ''Matthew 1-4''],
              a_theme = Some ''Birth & Early Ministry'',
              a_month = None, a_focus = None, a_feast = None,
              a_chapters = 4\<rparr>, rp'))"

subsection \<open>getNT90Reading and getOT365Reading\<close>

definition getNT90Reading :: "readingPlans \<Rightarrow> int \<Rightarrow> assignment \<times> readingPlans" where
  "getNT90Reading rp date =
     (case calculateDayNumber rp date 90 of
        (dayNumber, rp') \<Rightarrow>
          if length (nt90Plan rp') = 0 then getFallbackReading rp' date 90 ''NT''
          else
            (case find (\<lambda>r. de_day r = dayNumber) (nt90Plan rp') of
               Some reading \<Rightarrow>
                 (\<lparr>a_day = de_day reading,
                   a_title = ''Day '' @ showInt (de_day reading) @ '': '' @ showStr (de_theme reading),
                   a_passages = [de_reading reading],
                   a_theme = de_theme reading,
                   a_month = None, a_focus = None, a_feast = None,
                   a_chapters = chaptersOr3 (de_chapters reading)\<rparr>, rp')
             | None \<Rightarrow> getFallbackReading rp' date 90 ''NT''))"

definition getOT365Reading :: "readingPlans \<Rightarrow> int \<Rightarrow> assignment \<times> readingPlans" where
  "getOT365Reading rp date =
     (case calculateDayNumber rp date 365 of
        (dayNumber, rp') \<Rightarrow>
          if length (ot365Plan rp') = 0 then getFallbackReading rp' date 365 ''OT''
          else
            (case find (\<lambda>r. fe_day r = dayNumber) (ot365Plan rp') of
               Some reading \<Rightarrow>
                 (\<lparr>a_day = fe_day reading,
                   a_title = ''Day '' @ showInt (fe_day reading) @ '': '' @ showStr (fe_theme reading),
                   a_passages = [fe_reading reading],
                   a_theme = fe_theme reading,
                   a_month = fe_month reading,
                   a_focus = fe_focus reading,
                   a_feast = None,
                   a_chapters = chaptersOr3 (Some (fe_chapters reading))\<rparr>, rp')
             | None \<Rightarrow> getFallbackReading rp' date 365 ''OT''))"

subsection \<open>getEthiopianReading\<close>

text \<open>\<^verbatim>\<open>this.ethiopianPlan[i].readings?.length || 0\<close>\<close>

definition readingsLength :: "ethMonth \<Rightarrow> int" where
  "readingsLength m = (case em_readings m of None \<Rightarrow> 0 | Some rs \<Rightarrow> int (length rs))"

text \<open>The loop \<^verbatim>\<open>for (let i = 0; i < monthIndex; i++) daysSoFar += ...\<close>, entered with
  \<open>i = 0\<close> and \<open>daysSoFar = 0\<close>. The source runs it with \<open>monthIndex\<close> an index of the plan
  only, so that \<open>plan ! i\<close> is never read out of range.\<close>

function daysSoFarLoop :: "ethMonth list \<Rightarrow> nat \<Rightarrow> nat \<Rightarrow> int \<Rightarrow> int" where
  "daysSoFarLoop plan monthIndex i daysSoFar =
     (if i < monthIndex
      then daysSoFarLoop plan monthIndex (Suc i) (daysSoFar + readingsLength (plan ! i))
      else daysSoFar)"
  by pat_completeness auto
termination
  by (relation "measure (\<lambda>(plan, monthIndex, i, daysSoFar). monthIndex - i)") auto

declare daysSoFarLoop.simps [simp del]

text \<open>\<^verbatim>\<open>readingDayNumber\<close> of the callback passed to \<^verbatim>\<open>find\<close>.\<close>

definition readingDayNumber :: "ethMonth list \<Rightarrow> nat \<Rightarrow> ethReading \<Rightarrow> int" where
  "readingDayNumber plan monthIndex r = daysSoFarLoop plan monthIndex 0 0 + er_day r"

text \<open>The loop \<^verbatim>\<open>for (const month of this.ethiopianPlan)\<close>, from month position \<open>k\<close> on.
  \<^verbatim>\<open>this.ethiopianPlan.indexOf(month)\<close> compares object references; the plan is the
  \<^verbatim>\<open>months\<close> array of a parsed JSON document, whose elements are distinct objects, so the
  index found is the position \<open>k\<close> of the month being visited. The result is that position
  together with the reading found there (\<^verbatim>\<open>monthReading\<close>), or \<open>None\<close> when the loop ends
  with \<^verbatim>\<open>reading\<close> still \<^verbatim>\<open>null\<close>.\<close>

function findEthiopian :: "ethMonth list \<Rightarrow> int \<Rightarrow> nat \<Rightarrow> (nat \<times> ethReading) option" where
  "findEthiopian plan dayNumber k =
     (if k < length plan then
        (case em_readings (plan ! k) of
           None \<Rightarrow> findEthiopian plan dayNumber (Suc k)
         | Some readings \<Rightarrow>
             (case find (\<lambda>r. readingDayNumber plan k r = dayNumber) readings of
                Some monthReading \<Rightarrow> Some (k, monthReading)
              | None \<Rightarrow> findEthiopian plan dayNumber (Suc k)))
      else None)"
  by pat_completeness auto
termination
  by (relation "measure (\<lambda>(plan, dayNumber, k). length plan - k)") auto

declare findEthiopian.simps [simp del]

text \<open>The assignment built from \<^verbatim>\<open>reading = {...monthReading, month: month.name,
  feast: monthReading.feast || month.feast}\<close>.\<close>

definition ethiopianAssignment :: "int \<Rightarrow> ethMonth \<Rightarrow> ethReading \<Rightarrow> assignment" where
  "ethiopianAssignment dayNumber month monthReading =
     (let reading_month = em_name month;
          reading_feast = js_or (er_feast monthReading) (em_feast month)
      in \<lparr>a_day = dayNumber,
          a_title = showStr reading_month @ '' Day '' @ showInt (er_day monthReading)
                    @ (if truthy reading_feast then '' - '' @ showStr reading_feast else []),
          a_passages = [er_reading monthReading],
          a_theme = er_theme monthReading,
          a_month = reading_month,
          a_focus = None,
          a_feast = reading_feast,
          a_chapters = chaptersOr3 (er_chapters monthReading)\<rparr>)"

definition getEthiopianReading :: "readingPlans \<Rightarrow> int \<Rightarrow> assignment \<times> readingPlans" where
  "getEthiopianReading rp date =
     (case calculateDayNumber rp date 365 of
        (dayNumber, rp') \<Rightarrow>
          if length (ethiopianPlan rp') = 0 then getFallbackReading rp' date 365 ''OT''
          else
            (case findEthiopian (ethiopianPlan rp') dayNumber 0 of
               Some (k, monthReading) \<Rightarrow>
                 (ethiopianAssignment dayNumber (ethiopianPlan rp' ! k) monthReading, rp')
             | None \<Rightarrow> getFallbackReading rp' date 365 ''OT''))"

subsection \<open>getReadingForDate\<close>

text \<open>A thrown \<^verbatim>\<open>Error\<close> with its message.\<close>

datatype error = Error string

text \<open>The plan type that \<^verbatim>\<open>getReadingForDate\<close> stores in \<^verbatim>\<open>this.currentPlanType\<close>:
  the argument when it is truthy, the stored current plan otherwise.\<close>

definition effectivePlanType :: "readingPlans \<Rightarrow> string option \<Rightarrow> string" where
  "effectivePlanType rp planType =
     (if truthy planType then showStr planType else getCurrentPlan (storage rp))"

text \<open>No statement of \<^verbatim>\<open>getReadingForDate\<close> or of the functions it calls throws, so the
  result is always \<open>Inr\<close>.\<close>

definition getReadingForDate ::
  "readingPlans \<Rightarrow> int \<Rightarrow> string option \<Rightarrow> error + (assignment \<times> readingPlans)" where
  "getReadingForDate rp date planType =
     (let rp0 = rp\<lparr>currentPlanType := effectivePlanType rp planType\<rparr>
      in if currentPlanType rp0 = ''nt90'' then Inr (getNT90Reading rp0 date)
         else if currentPlanType rp0 = ''ot365'' then Inr (getOT365Reading rp0 date)
         else if currentPlanType rp0 = ''ethiopian'' then Inr (getEthiopianReading rp0 date)
         else Inr (getNT90Reading rp0 date))"

subsection \<open>getPlanInfo\<close>








section \<open>Dates and example states\<close>

text \<open>\<^verbatim>\<open>new Date('YYYY-MM-DD')\<close>: a date-only ISO string denotes midnight UTC of that day
  of the proleptic Gregorian calendar. \<open>daysFromCivil\<close> counts the days from 1970-01-01.\<close>

definition daysFromCivil :: "int \<Rightarrow> int \<Rightarrow> int \<Rightarrow> int" where
  "daysFromCivil y m d =
     (let y' = (if m \<le> 2 then y - 1 else y);
          era = y' div 400;
          yoe = y' - era * 400;
          doy = (153 * (if m > 2 then m - 3 else m + 9) + 2) div 5 + d - 1;
          doe = yoe * 365 + yoe div 4 - yoe div 100 + doy
      in era * 146097 + doe - 719468)"

definition isoDate :: "int \<Rightarrow> int \<Rightarrow> int \<Rightarrow> int" where
  "isoDate y m d = daysFromCivil y m d * msPerDay"

text \<open>The calendar day (UTC) on which a time value falls, and its time of day.\<close>

definition dateOnly :: "int \<Rightarrow> int" where
  "dateOnly t = t div msPerDay"

definition timeOfDay :: "int \<Rightarrow> int" where
  "timeOfDay t = t mod msPerDay"

text \<open>Example states: a store that holds the same start date for every plan type, a store
  that holds none, and a \<^verbatim>\<open>ReadingPlans\<close> object none of whose plans was loaded.\<close>

definition storageWithStart :: "int \<Rightarrow> storage" where
  "storageWithStart s = \<lparr>sm_currentPlan = ''nt90'', sm_startDates = (\<lambda>planType. Some s)\<rparr>"


definition unloadedPlans :: "storage \<Rightarrow> readingPlans" where
  "unloadedPlans sm =
     \<lparr>nt90Plan = [], ot365Plan = [], ethiopianPlan = [], currentPlanType = ''nt90'', storage = sm\<rparr>"

text \<open>The earliest valid \<^verbatim>\<open>Date\<close> and a date more than \<open>2 ^ 53\<close> ms minus ninety days, but
  less than \<open>2 ^ 53\<close> ms, after it.\<close>

definition earliestDate :: int where
  "earliestDate = - 8640000000000000"

definition farDate :: int where
  "farDate = 367199222399999"

text \<open>Three time values: noon of 2024-01-01, and 06:00 and 18:00 of 2024-01-02 (UTC).\<close>

definition noonStart :: int where
  "noonStart = isoDate 2024 1 1 + 12 * 60 * 60 * 1000"

definition nextDayMorning :: int where
  "nextDayMorning = isoDate 2024 1 2 + 6 * 60 * 60 * 1000"

definition nextDayEvening :: int where
  "nextDayEvening = isoDate 2024 1 2 + 18 * 60 * 60 * 1000"

text \<open>An OT365 document whose day entries are out of order: January holds the days 3 and 1,
  February the day 2; only the last entry names its chapters.\<close>

definition exampleOT365 :: ot365Document where
  "exampleOT365 =
     \<lparr>monthlyPlans = Some
        [\<lparr>mp_month = Some ''January'', mp_focus = Some ''Beginnings'',
          mp_days = Some
            [\<lparr>de_day = 3, de_reading = Some ''Genesis 7-9'', de_theme = Some ''Flood'',
              de_chapters = None\<rparr>,
             \<lparr>de_day = 1, de_reading = Some ''Genesis 1-3'', de_theme = Some ''Creation'',
              de_chapters = None\<rparr>]\<rparr>,
         \<lparr>mp_month = Some ''February'', mp_focus = Some ''Covenant'',
          mp_days = Some
            [\<lparr>de_day = 2, de_reading = Some ''Genesis 4-6'', de_theme = Some ''Cain'',
              de_chapters = Some 5\<rparr>]\<rparr>]\<rparr>"

text \<open>Example Ethiopian plans. \<open>regularPlan\<close> has three months with 2, 1 and 3 readings, the
  readings of a month numbered from 1. \<open>sparsePlan\<close> has three months with 1, 1 and 2
  readings, the only reading of its first month falling on day 4 of that month.
  \<open>emptyFirstPlan\<close> has a first month without readings.\<close>

definition exampleReading :: "int \<Rightarrow> string \<Rightarrow> ethReading" where
  "exampleReading d passage =
     \<lparr>er_day = d, er_reading = Some passage, er_theme = None, er_feast = None,
      er_chapters = None\<rparr>"

definition exampleMonth :: "string \<Rightarrow> ethReading list \<Rightarrow> ethMonth" where
  "exampleMonth name readings =
     \<lparr>em_name = Some name, em_feast = None, em_readings = Some readings\<rparr>"

definition regularPlan :: "ethMonth list" where
  "regularPlan =
     [exampleMonth ''Meskerem'' [exampleReading 1 ''Genesis 1'', exampleReading 2 ''Genesis 2''],
      exampleMonth ''Tikimt'' [exampleReading 1 ''Genesis 3''],
      exampleMonth ''Hidar'' [exampleReading 1 ''Genesis 4'', exampleReading 2 ''Genesis 5'',
                              exampleReading 3 ''Genesis 6'']]"

definition sparsePlan :: "ethMonth list" where
  "sparsePlan =
     [exampleMonth ''Meskerem'' [exampleReading 4 ''Genesis 1''],
      exampleMonth ''Tikimt'' [exampleReading 1 ''Genesis 2''],
      exampleMonth ''Hidar'' [exampleReading 1 ''Genesis 3'', exampleReading 2 ''Genesis 4'']]"

definition emptyFirstPlan :: "ethMonth list" where
  "emptyFirstPlan =
     [exampleMonth ''Meskerem'' [],
      exampleMonth ''Tikimt'' [exampleReading 1 ''Genesis 1'']]"

definition ethiopianState :: "ethMonth list \<Rightarrow> int \<Rightarrow> readingPlans" where
  "ethiopianState plan start =
     \<lparr>nt90Plan = [], ot365Plan = [], ethiopianPlan = plan, currentPlanType = ''ethiopian'',
      storage = storageWithStart start\<rparr>"


text \<open>The value of \<^verbatim>\<open>monthReading\<close> in the loop body for the month at position \<open>k\<close>:
  \<open>None\<close> when the month has no \<^verbatim>\<open>readings\<close> or \<^verbatim>\<open>find\<close> finds nothing.\<close>

definition monthReadingAt :: "ethMonth list \<Rightarrow> int \<Rightarrow> nat \<Rightarrow> ethReading option" where
  "monthReadingAt plan dayNumber k =
     (case em_readings (plan ! k) of
        None \<Rightarrow> None
      | Some readings \<Rightarrow> find (\<lambda>r. readingDayNumber plan k r = dayNumber) readings)"

section \<open>Verification\<close>

subsection \<open>The day number\<close>

lemma js_rem_nonneg: "0 \<le> a \<Longrightarrow> 0 < b \<Longrightarrow> js_rem a b = a mod b"
  by (cases "a = 0") (simp_all add: js_rem_def)

lemma js_rem_neg: "a < 0 \<Longrightarrow> 0 < b \<Longrightarrow> js_rem a b = - ((- a) mod b)"
  by (simp add: js_rem_def)

lemma cycleDay_mod: 
  assumes "0 < L" shows "cycleDay d L = d mod L + 1"
proof (cases "0 \<le> d")
  case True
  then have "js_rem d L = d mod L" using assms by (simp add: js_rem_nonneg)
  moreover have "0 \<le> d mod L + L" using assms by (simp add: add_nonneg_nonneg)
  ultimately show ?thesis using assms by (simp add: cycleDay_def js_rem_nonneg)
next
  case False
  then have r: "js_rem d L = - ((- d) mod L)" using assms by (simp add: js_rem_neg)
  have lt: "(- d) mod L < L" using assms by simp
  have "0 \<le> - ((- d) mod L) + L" using lt by simp
  then have "js_rem (js_rem d L + L) L = (- ((- d) mod L) + L) mod L"
    using assms r by (simp add: js_rem_nonneg)
  also have "\<dots> = (- ((- d) mod L)) mod L" by simp
  also have "\<dots> = d mod L" by (simp add: mod_minus_eq)
  finally show ?thesis by (simp add: cycleDay_def)
qed

lemma cycleDay_zero: "cycleDay 0 L = 1"
  by (simp add: cycleDay_def js_rem_def)

lemma calculateDayNumber_fst:
  "fst (calculateDayNumber rp date L) =
     (case getStartDate (storage rp) (currentPlanType rp) of
        None \<Rightarrow> 1
      | Some startDate \<Rightarrow> cycleDay ((date - startDate) div msPerDay) L)"
  by (simp add: calculateDayNumber_def Let_def split: option.splits)

text \<open>Claim C1. For every cycle length \<open>L > 0\<close> and every integer number of elapsed days the
  day number lies between 1 and \<open>L\<close>: this holds of the closing formula of
  \<^verbatim>\<open>calculateDayNumber\<close> at every \<open>elapsedDays\<close>, and of \<^verbatim>\<open>calculateDayNumber\<close> itself in
  every state and at every date. When today is the stored start date, the day number is 1.\<close>

theorem calculateDayNumber_range:
  assumes "0 < L"
  shows "1 \<le> cycleDay elapsedDays L \<and> cycleDay elapsedDays L \<le> L
         \<and> 1 \<le> fst (calculateDayNumber rp today L)
         \<and> fst (calculateDayNumber rp today L) \<le> L
         \<and> (getStartDate (storage rp) (currentPlanType rp) = Some today
              \<longrightarrow> fst (calculateDayNumber rp today L) = 1)"
proof -
  have c: "1 \<le> cycleDay e L \<and> cycleDay e L \<le> L" for e
  proof -
    have "0 \<le> e mod L" and "e mod L < L" using assms by simp_all
    then have "1 \<le> e mod L + 1" and "e mod L + 1 \<le> L" by linarith+
    then show ?thesis using assms by (simp add: cycleDay_mod)
  qed
  have r: "1 \<le> fst (calculateDayNumber rp today L) \<and> fst (calculateDayNumber rp today L) \<le> L"
    using c assms by (simp add: calculateDayNumber_fst split: option.splits)
  have s: "getStartDate (storage rp) (currentPlanType rp) = Some today
             \<longrightarrow> fst (calculateDayNumber rp today L) = 1"
    by (simp add: calculateDayNumber_fst cycleDay_zero)
  show ?thesis using c r s by blast
qed

theorem calculateDayNumber_range_witness:
  "(0::int) < 90
   \<and> getStartDate (storage (unloadedPlans (storageWithStart (isoDate 2024 1 1)))) 
        (currentPlanType (unloadedPlans (storageWithStart (isoDate 2024 1 1)))) = Some (isoDate 2024 1 1)
   \<and> cycleDay (- 1) 90 = 90
   \<and> fst (calculateDayNumber (unloadedPlans (storageWithStart (isoDate 2024 1 1))) (isoDate 2024 1 1) 90) = 1"
proof -
  have h: "(0::int) < 90" by simp
  have g: "getStartDate (storage (unloadedPlans (storageWithStart (isoDate 2024 1 1)))) 
        (currentPlanType (unloadedPlans (storageWithStart (isoDate 2024 1 1)))) = Some (isoDate 2024 1 1)"
    by (simp add: getStartDate_def unloadedPlans_def storageWithStart_def)
  have e: "cycleDay (- 1) 90 = 90" by (simp add: cycleDay_def js_rem_def)
  show ?thesis
    using h g e calculateDayNumber_range [OF h, of "- 1" "unloadedPlans (storageWithStart (isoDate 2024 1 1))" "isoDate 2024 1 1"]
    by simp
qed

text \<open>Claim C2, as amended. With cycle length 90 and stored start date 2024-01-01,
  \<^verbatim>\<open>calculateDayNumber\<close> returns 1 for 2024-01-01, 2 for 2024-04-01 (91 days later), 1 for
  2024-03-31 (90 days later, where the cycle wraps), and 90 for 2023-12-31.\<close>

theorem calculateDayNumber_examples:
  assumes "getStartDate (storage rp) (currentPlanType rp) = Some (isoDate 2024 1 1)"
  shows "fst (calculateDayNumber rp (isoDate 2024 1 1) 90) = 1
         \<and> fst (calculateDayNumber rp (isoDate 2024 1 1 + 91 * msPerDay) 90) = 2
         \<and> fst (calculateDayNumber rp (isoDate 2024 4 1) 90) = 2
         \<and> fst (calculateDayNumber rp (isoDate 2024 3 31) 90) = 1
         \<and> fst (calculateDayNumber rp (isoDate 2023 12 31) 90) = 90"
  using assms
  by (simp add: calculateDayNumber_def isoDate_def daysFromCivil_def msPerDay_def cycleDay_def js_rem_def)

theorem calculateDayNumber_examples_witness:
  "getStartDate (storage (unloadedPlans (storageWithStart (isoDate 2024 1 1)))) ''nt90'' = Some (isoDate 2024 1 1)
   \<and> fst (calculateDayNumber (unloadedPlans (storageWithStart (isoDate 2024 1 1))) (isoDate 2023 12 31) 90) = 90"
proof -
  have c: "currentPlanType (unloadedPlans (storageWithStart (isoDate 2024 1 1))) = ''nt90''"
    by (simp add: unloadedPlans_def)
  have g: "getStartDate (storage (unloadedPlans (storageWithStart (isoDate 2024 1 1)))) 
        (currentPlanType (unloadedPlans (storageWithStart (isoDate 2024 1 1)))) = Some (isoDate 2024 1 1)"
    by (simp add: getStartDate_def unloadedPlans_def storageWithStart_def)
  have "fst (calculateDayNumber (unloadedPlans (storageWithStart (isoDate 2024 1 1))) (isoDate 2023 12 31) 90) = 90"
    using calculateDayNumber_examples [OF g] by blast
  then show ?thesis
    using g c by simp
qed

text \<open>Claim C2 as stated fails: 2024-04-01 is 91 days after 2024-01-01, and the day number
  computed for it is not 1.\<close>

theorem calculateDayNumber_april_counterexample:
  "isoDate 2024 4 1 = isoDate 2024 1 1 + 91 * msPerDay
   \<and> getStartDate (storage (unloadedPlans (storageWithStart (isoDate 2024 1 1)))) 
        (currentPlanType (unloadedPlans (storageWithStart (isoDate 2024 1 1)))) = Some (isoDate 2024 1 1)
   \<and> fst (calculateDayNumber (unloadedPlans (storageWithStart (isoDate 2024 1 1))) (isoDate 2024 4 1) 90) \<noteq> 1"
  by (simp add: calculateDayNumber_def getStartDate_def unloadedPlans_def storageWithStart_def
        isoDate_def daysFromCivil_def msPerDay_def cycleDay_def js_rem_def)

subsection \<open>Time of day\<close>

lemma msPerDay_pos: "0 < msPerDay"
  by (simp add: msPerDay_def)

lemma diffDays_date_only:
  "(today - start) div msPerDay =
     dateOnly today - dateOnly start - (if timeOfDay today < timeOfDay start then 1 else 0)"
proof -
  let ?D = msPerDay
  have t: "today = ?D * dateOnly today + timeOfDay today"
    and s: "start = ?D * dateOnly start + timeOfDay start"
    by (simp_all add: dateOnly_def timeOfDay_def)
  have bt: "0 \<le> timeOfDay today" "timeOfDay today < ?D"
    and bs: "0 \<le> timeOfDay start" "timeOfDay start < ?D"
    using msPerDay_pos by (simp_all add: timeOfDay_def)
  show ?thesis
  proof (cases "timeOfDay today < timeOfDay start")
    case True
    have "today - start = ?D * (dateOnly today - dateOnly start - 1)
                           + (?D + timeOfDay today - timeOfDay start)"
      using t s by (simp add: algebra_simps)
    moreover have "0 \<le> ?D + timeOfDay today - timeOfDay start"
      and "?D + timeOfDay today - timeOfDay start < ?D"
      using bt bs True by linarith+
    ultimately have "(today - start) div ?D = dateOnly today - dateOnly start - 1"
      using msPerDay_pos by (metis int_div_pos_eq)
    then show ?thesis using True by simp
  next
    case False
    have "today - start = ?D * (dateOnly today - dateOnly start)
                           + (timeOfDay today - timeOfDay start)"
      using t s by (simp add: algebra_simps)
    moreover have "0 \<le> timeOfDay today - timeOfDay start"
      and "timeOfDay today - timeOfDay start < ?D"
      using bt bs False by linarith+
    ultimately have "(today - start) div ?D = dateOnly today - dateOnly start"
      using msPerDay_pos by (metis int_div_pos_eq)
    then show ?thesis using False by simp
  qed
qed

text \<open>Claim C3, as amended. \<^verbatim>\<open>calculateDayNumber\<close> does not truncate the time of day. For a
  today that differs from the stored start date by less than \<open>2 ^ 53\<close> ms, the elapsed days
  are the floor of the difference of the two full time values over the length of a day,
  that is the difference of the two UTC calendar days, less one when today's UTC time of day
  is earlier than the start date's. So two such values of today on the same UTC calendar
  date yield the same day number when their times of day lie on the same side of the start
  date's time of day, and always when the start date is at midnight UTC.\<close>

theorem calculateDayNumber_time_of_day:
  assumes "getStartDate (storage rp) (currentPlanType rp) = Some start"
    and "\<bar>today - start\<bar> < 2 ^ 53"
  shows "fst (calculateDayNumber rp today L) =
           cycleDay (dateOnly today - dateOnly start
                     - (if timeOfDay today < timeOfDay start then 1 else 0)) L
         \<and> (\<bar>today' - start\<bar> < 2 ^ 53 \<and> dateOnly today' = dateOnly today
              \<and> (timeOfDay today' < timeOfDay start) = (timeOfDay today < timeOfDay start)
            \<longrightarrow> fst (calculateDayNumber rp today' L) = fst (calculateDayNumber rp today L))
         \<and> (\<bar>today' - start\<bar> < 2 ^ 53 \<and> dateOnly today' = dateOnly today
              \<and> timeOfDay start = 0
            \<longrightarrow> fst (calculateDayNumber rp today' L) = fst (calculateDayNumber rp today L))"
proof -
  have f: "fst (calculateDayNumber rp t L) =
           cycleDay (dateOnly t - dateOnly start
                     - (if timeOfDay t < timeOfDay start then 1 else 0)) L" for t
    using assms by (simp only: calculateDayNumber_fst option.case diffDays_date_only)
  have z: "0 \<le> timeOfDay t" for t
    using msPerDay_pos by (simp add: timeOfDay_def)
  have a: "dateOnly today' = dateOnly today
              \<and> (timeOfDay today' < timeOfDay start) = (timeOfDay today < timeOfDay start)
            \<longrightarrow> fst (calculateDayNumber rp today' L) = fst (calculateDayNumber rp today L)"
    by (simp add: f)
  have b: "dateOnly today' = dateOnly today \<and> timeOfDay start = 0
            \<longrightarrow> fst (calculateDayNumber rp today' L) = fst (calculateDayNumber rp today L)"
    using z [of today] z [of today'] by (simp add: f)
  show ?thesis using f [of today] a b by blast
qed

theorem calculateDayNumber_time_of_day_witness:
  "getStartDate (storage (unloadedPlans (storageWithStart (isoDate 2024 1 1))))
        (currentPlanType (unloadedPlans (storageWithStart (isoDate 2024 1 1)))) = Some (isoDate 2024 1 1)
   \<and> \<bar>nextDayMorning - isoDate 2024 1 1\<bar> < 2 ^ 53
   \<and> \<bar>nextDayEvening - isoDate 2024 1 1\<bar> < 2 ^ 53
   \<and> dateOnly nextDayEvening = dateOnly nextDayMorning
   \<and> timeOfDay (isoDate 2024 1 1) = 0
   \<and> fst (calculateDayNumber (unloadedPlans (storageWithStart (isoDate 2024 1 1))) nextDayEvening 90) = 2
   \<and> fst (calculateDayNumber (unloadedPlans (storageWithStart (isoDate 2024 1 1))) nextDayMorning 90) = 2"
proof -
  have g: "getStartDate (storage (unloadedPlans (storageWithStart (isoDate 2024 1 1))))
        (currentPlanType (unloadedPlans (storageWithStart (isoDate 2024 1 1)))) = Some (isoDate 2024 1 1)"
    by (simp add: getStartDate_def unloadedPlans_def storageWithStart_def)
  have d: "dateOnly nextDayEvening = dateOnly nextDayMorning"
    by (simp add: dateOnly_def nextDayEvening_def nextDayMorning_def isoDate_def
        daysFromCivil_def msPerDay_def)
  have t: "timeOfDay (isoDate 2024 1 1) = 0"
    by (simp add: timeOfDay_def isoDate_def)
  have m: "fst (calculateDayNumber (unloadedPlans (storageWithStart (isoDate 2024 1 1))) nextDayMorning 90) = 2"
    by (simp add: calculateDayNumber_def getStartDate_def unloadedPlans_def storageWithStart_def
        nextDayMorning_def isoDate_def daysFromCivil_def msPerDay_def cycleDay_def js_rem_def)
  have b: "\<bar>nextDayMorning - isoDate 2024 1 1\<bar> < 2 ^ 53"
    by (simp add: nextDayMorning_def isoDate_def daysFromCivil_def msPerDay_def)
  have c: "\<bar>nextDayEvening - isoDate 2024 1 1\<bar> < 2 ^ 53"
    by (simp add: nextDayEvening_def isoDate_def daysFromCivil_def msPerDay_def)
  have "fst (calculateDayNumber (unloadedPlans (storageWithStart (isoDate 2024 1 1))) nextDayEvening 90)
         = fst (calculateDayNumber (unloadedPlans (storageWithStart (isoDate 2024 1 1))) nextDayMorning 90)"
    using calculateDayNumber_time_of_day
            [where today = nextDayMorning and L = 90 and today' = nextDayEvening, OF g b] c d t
    by blast
  then show ?thesis using g b c d t m by simp
qed

text \<open>Claim C3 as stated fails: with the start date at noon of 2024-01-01, the morning and
  the evening of 2024-01-02 (UTC) are the same calendar date and get the day numbers 1 and
  2.\<close>

theorem calculateDayNumber_truncation_counterexample:
  "dateOnly nextDayMorning = dateOnly nextDayEvening
   \<and> getStartDate (storage (unloadedPlans (storageWithStart noonStart)))
        (currentPlanType (unloadedPlans (storageWithStart noonStart))) = Some noonStart
   \<and> fst (calculateDayNumber (unloadedPlans (storageWithStart noonStart)) nextDayMorning 90) = 1
   \<and> fst (calculateDayNumber (unloadedPlans (storageWithStart noonStart)) nextDayEvening 90) = 2"
  by (simp add: calculateDayNumber_def getStartDate_def unloadedPlans_def storageWithStart_def
        dateOnly_def noonStart_def nextDayMorning_def nextDayEvening_def
        isoDate_def daysFromCivil_def msPerDay_def cycleDay_def js_rem_def)

subsection \<open>State, unknown plan types and the fallback\<close>

lemma showInt_1: "showInt 1 = ''1''"
  by (simp add: showInt_def showNat.simps)

lemma calculateDayNumber_snd:
  "snd (calculateDayNumber rp date L) =
     (case getStartDate (storage rp) (currentPlanType rp) of
        None \<Rightarrow> rp\<lparr>storage := setStartDate (storage rp) (currentPlanType rp) date\<rparr>
      | Some s \<Rightarrow> rp)"
  by (simp add: calculateDayNumber_def Let_def split: option.splits)

lemma calculateDayNumber_twice:
  "calculateDayNumber (snd (calculateDayNumber rp date L)) date L' =
     (fst (calculateDayNumber rp date L'), snd (calculateDayNumber rp date L))"
  by (simp add: calculateDayNumber_def Let_def getStartDate_def setStartDate_def cycleDay_zero
      split: option.splits)

lemma calculateDayNumber_tables:
  "nt90Plan (snd (calculateDayNumber rp date L)) = nt90Plan rp"
  "ot365Plan (snd (calculateDayNumber rp date L)) = ot365Plan rp"
  "ethiopianPlan (snd (calculateDayNumber rp date L)) = ethiopianPlan rp"
  "currentPlanType (snd (calculateDayNumber rp date L)) = currentPlanType rp"
  by (simp_all add: calculateDayNumber_snd split: option.splits)

lemma calculateDayNumber_snd_indep:
  "snd (calculateDayNumber rp date L) = snd (calculateDayNumber rp date L')"
  by (simp add: calculateDayNumber_snd)

lemma getFallbackReading_after:
  "getFallbackReading (snd (calculateDayNumber rp date L)) date L' testament =
     (fst (getFallbackReading rp date L' testament), snd (calculateDayNumber rp date L))"
  by (simp add: getFallbackReading_def calculateDayNumber_twice split_beta
      calculateDayNumber_snd_indep [of rp date L' L])

lemma getFallbackReading_snd:
  "snd (getFallbackReading rp date L testament) = snd (calculateDayNumber rp date L)"
  by (simp add: getFallbackReading_def split_beta)

lemma getNT90Reading_snd:
  "snd (getNT90Reading rp date) = snd (calculateDayNumber rp date 90)"
  by (simp add: getNT90Reading_def split_beta getFallbackReading_after split: option.splits)

lemma getOT365Reading_snd:
  "snd (getOT365Reading rp date) = snd (calculateDayNumber rp date 365)"
  by (simp add: getOT365Reading_def split_beta getFallbackReading_after split: option.splits)

lemma getEthiopianReading_snd:
  "snd (getEthiopianReading rp date) = snd (calculateDayNumber rp date 365)"
  by (simp add: getEthiopianReading_def split_beta getFallbackReading_after split: option.splits)

lemma getReadingForDate_state:
  "getReadingForDate rp date planType =
     Inr (fst (projr (getReadingForDate rp date planType)),
          snd (calculateDayNumber (rp\<lparr>currentPlanType := effectivePlanType rp planType\<rparr>) date 90))"
proof -
  let ?rp0 = "rp\<lparr>currentPlanType := effectivePlanType rp planType\<rparr>"
  let ?s = "snd (calculateDayNumber ?rp0 date 90)"
  have n: "getNT90Reading ?rp0 date = (fst (getNT90Reading ?rp0 date), ?s)"
    by (metis getNT90Reading_snd prod.collapse)
  have o: "getOT365Reading ?rp0 date = (fst (getOT365Reading ?rp0 date), ?s)"
    by (metis getOT365Reading_snd calculateDayNumber_snd_indep prod.collapse)
  have e: "getEthiopianReading ?rp0 date = (fst (getEthiopianReading ?rp0 date), ?s)"
    by (metis getEthiopianReading_snd calculateDayNumber_snd_indep prod.collapse)
  consider "currentPlanType ?rp0 = ''nt90''"
    | "currentPlanType ?rp0 \<noteq> ''nt90''" "currentPlanType ?rp0 = ''ot365''"
    | "currentPlanType ?rp0 \<noteq> ''nt90''" "currentPlanType ?rp0 \<noteq> ''ot365''"
      "currentPlanType ?rp0 = ''ethiopian''"
    | "currentPlanType ?rp0 \<noteq> ''nt90''" "currentPlanType ?rp0 \<noteq> ''ot365''"
      "currentPlanType ?rp0 \<noteq> ''ethiopian''"
    by blast
  then show ?thesis
  proof cases
    case 1
    then have "getReadingForDate rp date planType = Inr (getNT90Reading ?rp0 date)"
      by (simp add: getReadingForDate_def Let_def)
    then show ?thesis using n by simp
  next
    case 2
    then have "getReadingForDate rp date planType = Inr (getOT365Reading ?rp0 date)"
      by (simp add: getReadingForDate_def Let_def)
    then show ?thesis using o by simp
  next
    case 3
    then have "getReadingForDate rp date planType = Inr (getEthiopianReading ?rp0 date)"
      by (simp add: getReadingForDate_def Let_def)
    then show ?thesis using e by simp
  next
    case 4
    then have "getReadingForDate rp date planType = Inr (getNT90Reading ?rp0 date)"
      by (simp add: getReadingForDate_def Let_def)
    then show ?thesis using n by simp
  qed
qed

text \<open>Claim C5, as amended. \<^verbatim>\<open>getReadingForDate\<close> throws nothing and leaves the three plan tables
  unchanged; it sets \<^verbatim>\<open>currentPlanType\<close> to the plan type it works with (the argument when
  truthy, the stored current plan otherwise); and the only change to the store is the start
  date of that plan type, set to the date when none was stored.\<close>

theorem getReadingForDate_frame:
  "\<exists>a rp'. getReadingForDate rp date planType = Inr (a, rp')
     \<and> rp' = (case getStartDate (storage rp) (effectivePlanType rp planType) of
                 None \<Rightarrow> rp\<lparr>currentPlanType := effectivePlanType rp planType,
                             storage := setStartDate (storage rp) (effectivePlanType rp planType) date\<rparr>
               | Some s \<Rightarrow> rp\<lparr>currentPlanType := effectivePlanType rp planType\<rparr>)
     \<and> nt90Plan rp' = nt90Plan rp
     \<and> ot365Plan rp' = ot365Plan rp
     \<and> ethiopianPlan rp' = ethiopianPlan rp
     \<and> currentPlanType rp' = effectivePlanType rp planType
     \<and> getCurrentPlan (storage rp') = getCurrentPlan (storage rp)"
proof -
  let ?rp0 = "rp\<lparr>currentPlanType := effectivePlanType rp planType\<rparr>"
  let ?s = "snd (calculateDayNumber ?rp0 date 90)"
  have r: "getReadingForDate rp date planType
             = Inr (fst (projr (getReadingForDate rp date planType)), ?s)"
    by (rule getReadingForDate_state)
  have s: "?s = (case getStartDate (storage rp) (effectivePlanType rp planType) of
                 None \<Rightarrow> rp\<lparr>currentPlanType := effectivePlanType rp planType,
                             storage := setStartDate (storage rp) (effectivePlanType rp planType) date\<rparr>
               | Some s \<Rightarrow> rp\<lparr>currentPlanType := effectivePlanType rp planType\<rparr>)"
    by (simp add: calculateDayNumber_snd split: option.splits)
  have t: "nt90Plan ?s = nt90Plan rp" "ot365Plan ?s = ot365Plan rp"
    "ethiopianPlan ?s = ethiopianPlan rp" "currentPlanType ?s = effectivePlanType rp planType"
    by (simp_all add: calculateDayNumber_tables)
  have c: "getCurrentPlan (storage ?s) = getCurrentPlan (storage rp)"
    by (simp add: calculateDayNumber_snd getCurrentPlan_def setStartDate_def split: option.splits)
  show ?thesis using r s t c by blast
qed

text \<open>Claim C5 as stated fails: with a start date stored (so that nothing is written to the
  store) a call for \<^verbatim>\<open>ot365\<close> changes \<^verbatim>\<open>currentPlanType\<close> from \<^verbatim>\<open>nt90\<close> to \<^verbatim>\<open>ot365\<close>.\<close>

theorem getReadingForDate_frame_counterexample:
  "getReadingForDate (unloadedPlans (storageWithStart (isoDate 2024 1 1))) (isoDate 2024 1 1) (Some ''ot365'')
     = Inr (\<lparr>a_day = 1, a_title = ''OT365 Day 1'', a_passages = [Some ''Genesis 1-3''],
             a_theme = Some ''Creation & Fall'', a_month = None, a_focus = None, a_feast = None,
             a_chapters = 3\<rparr>,
            (unloadedPlans (storageWithStart (isoDate 2024 1 1)))\<lparr>currentPlanType := ''ot365''\<rparr>)
   \<and> currentPlanType (unloadedPlans (storageWithStart (isoDate 2024 1 1))) = ''nt90''
   \<and> currentPlanType ((unloadedPlans (storageWithStart (isoDate 2024 1 1)))\<lparr>currentPlanType := ''ot365''\<rparr>)
       \<noteq> currentPlanType (unloadedPlans (storageWithStart (isoDate 2024 1 1)))"
  by (simp add: getReadingForDate_def effectivePlanType_def truthy_def showStr_def Let_def
      getOT365Reading_def getFallbackReading_def calculateDayNumber_def getStartDate_def
      unloadedPlans_def storageWithStart_def cycleDay_zero showInt_1)












subsection \<open>The flattened OT365 table\<close>

lemma push_loop:
  "foldl (\<lambda>acc day. acc @ [flatRecord monthPlan day]) flatPlan days
     = flatPlan @ map (flatRecord monthPlan) days"
  by (induction days arbitrary: flatPlan) simp_all

lemma pushDays_append:
  "pushDays flatPlan monthPlan =
     flatPlan @ map (flatRecord monthPlan) (case mp_days monthPlan of None \<Rightarrow> [] | Some days \<Rightarrow> days)"
  by (simp add: pushDays_def push_loop split: option.splits)

lemma foldl_pushDays:
  "foldl pushDays flatPlan mps =
     flatPlan @ concat (map (\<lambda>monthPlan. map (flatRecord monthPlan)
                          (case mp_days monthPlan of None \<Rightarrow> [] | Some days \<Rightarrow> days)) mps)"
  by (induction mps arbitrary: flatPlan) (simp_all add: pushDays_append)

lemma flattenOT365Plan_sort:
  assumes "monthlyPlans data = Some mps"
  shows "flattenOT365Plan data =
           sort_key fe_day (concat (map (\<lambda>monthPlan. map (flatRecord monthPlan)
                          (case mp_days monthPlan of None \<Rightarrow> [] | Some days \<Rightarrow> days)) mps))"
  using assms by (simp add: flattenOT365Plan_def foldl_pushDays)

lemma length_concat_days:
  "length (concat (map (\<lambda>monthPlan. map (f monthPlan)
                          (case mp_days monthPlan of None \<Rightarrow> [] | Some days \<Rightarrow> days)) mps))
     = sum_list (map (\<lambda>monthPlan. case mp_days monthPlan of None \<Rightarrow> 0 | Some days \<Rightarrow> length days) mps)"
  by (induction mps) (simp_all split: option.splits)

text \<open>Claim C7. For a raw OT365 document with month groups, the flattened table holds exactly
  one record per day entry (as many records as the months have day entries in total): each
  record has the \<^verbatim>\<open>day\<close>, \<^verbatim>\<open>reading\<close> and \<^verbatim>\<open>theme\<close> of its entry, the \<^verbatim>\<open>month\<close> and \<^verbatim>\<open>focus\<close> of
  the entry's month group, and the entry's chapters, 3 when they are absent (or zero). The
  table is sorted by the records' \<^verbatim>\<open>day\<close>, whatever the position of the entries.\<close>

theorem flattenOT365Plan_table:
  assumes "monthlyPlans data = Some mps"
  shows "mset (flattenOT365Plan data) =
           mset (concat (map (\<lambda>monthPlan.
                   map (\<lambda>day. \<lparr>fe_day = de_day day,
                                fe_reading = de_reading day,
                                fe_theme = de_theme day,
                                fe_month = mp_month monthPlan,
                                fe_focus = mp_focus monthPlan,
                                fe_chapters = (case de_chapters day of
                                                 None \<Rightarrow> 3
                                               | Some c \<Rightarrow> if c = 0 then 3 else c)\<rparr>)
                       (case mp_days monthPlan of None \<Rightarrow> [] | Some days \<Rightarrow> days)) mps))
         \<and> length (flattenOT365Plan data) =
             sum_list (map (\<lambda>monthPlan. case mp_days monthPlan of
                                          None \<Rightarrow> 0 | Some days \<Rightarrow> length days) mps)
         \<and> sorted (map fe_day (flattenOT365Plan data))"
proof -
  have r: "flatRecord monthPlan = (\<lambda>day. \<lparr>fe_day = de_day day,
                                fe_reading = de_reading day,
                                fe_theme = de_theme day,
                                fe_month = mp_month monthPlan,
                                fe_focus = mp_focus monthPlan,
                                fe_chapters = (case de_chapters day of
                                                 None \<Rightarrow> 3
                                               | Some c \<Rightarrow> if c = 0 then 3 else c)\<rparr>)"
    for monthPlan
    by (rule ext) (simp add: flatRecord_def chaptersOr3_def)
  have s: "flattenOT365Plan data =
           sort_key fe_day (concat (map (\<lambda>monthPlan. map (flatRecord monthPlan)
                          (case mp_days monthPlan of None \<Rightarrow> [] | Some days \<Rightarrow> days)) mps))"
    using assms by (rule flattenOT365Plan_sort)
  have m: "mset (flattenOT365Plan data) =
           mset (concat (map (\<lambda>monthPlan. map (flatRecord monthPlan)
                          (case mp_days monthPlan of None \<Rightarrow> [] | Some days \<Rightarrow> days)) mps))"
    by (simp only: s mset_sort)
  have l: "length (flattenOT365Plan data) =
             sum_list (map (\<lambda>monthPlan. case mp_days monthPlan of
                                          None \<Rightarrow> 0 | Some days \<Rightarrow> length days) mps)"
    by (simp only: s length_sort length_concat_days)
  have o: "sorted (map fe_day (flattenOT365Plan data))"
    by (simp only: s sorted_sort_key)
  show ?thesis using m l o by (simp only: r)
qed

theorem flattenOT365Plan_table_witness:
  "(\<exists>mps. monthlyPlans exampleOT365 = Some mps)
   \<and> length (flattenOT365Plan exampleOT365) = 3
   \<and> sorted (map fe_day (flattenOT365Plan exampleOT365))
   \<and> flattenOT365Plan exampleOT365 =
       [\<lparr>fe_day = 1, fe_reading = Some ''Genesis 1-3'', fe_theme = Some ''Creation'',
         fe_month = Some ''January'', fe_focus = Some ''Beginnings'', fe_chapters = 3\<rparr>,
        \<lparr>fe_day = 2, fe_reading = Some ''Genesis 4-6'', fe_theme = Some ''Cain'',
         fe_month = Some ''February'', fe_focus = Some ''Covenant'', fe_chapters = 5\<rparr>,
        \<lparr>fe_day = 3, fe_reading = Some ''Genesis 7-9'', fe_theme = Some ''Flood'',
         fe_month = Some ''January'', fe_focus = Some ''Beginnings'', fe_chapters = 3\<rparr>]"
proof -
  obtain mps where h: "monthlyPlans exampleOT365 = Some mps"
    by (simp add: exampleOT365_def)
  have v: "flattenOT365Plan exampleOT365 =
       [\<lparr>fe_day = 1, fe_reading = Some ''Genesis 1-3'', fe_theme = Some ''Creation'',
         fe_month = Some ''January'', fe_focus = Some ''Beginnings'', fe_chapters = 3\<rparr>,
        \<lparr>fe_day = 2, fe_reading = Some ''Genesis 4-6'', fe_theme = Some ''Cain'',
         fe_month = Some ''February'', fe_focus = Some ''Covenant'', fe_chapters = 5\<rparr>,
        \<lparr>fe_day = 3, fe_reading = Some ''Genesis 7-9'', fe_theme = Some ''Flood'',
         fe_month = Some ''January'', fe_focus = Some ''Beginnings'', fe_chapters = 3\<rparr>]"
    by (simp add: flattenOT365Plan_def exampleOT365_def pushDays_def flatRecord_def chaptersOr3_def)
  have "sorted (map fe_day (flattenOT365Plan exampleOT365))"
    using flattenOT365Plan_table [OF h] by blast
  then show ?thesis using h v by simp
qed

subsection \<open>The Ethiopian lookup\<close>

lemma daysSoFarLoop_sum:
  "i \<le> monthIndex \<Longrightarrow>
     daysSoFarLoop plan monthIndex i daysSoFar
       = daysSoFar + (\<Sum>j = i..<monthIndex. readingsLength (plan ! j))"
proof (induction plan monthIndex i daysSoFar rule: daysSoFarLoop.induct)
  case (1 plan monthIndex i daysSoFar)
  show ?case
  proof (cases "i < monthIndex")
    case True
    then have "daysSoFarLoop plan monthIndex i daysSoFar
                 = daysSoFarLoop plan monthIndex (Suc i) (daysSoFar + readingsLength (plan ! i))"
      by (subst daysSoFarLoop.simps) simp
    also have "\<dots> = daysSoFar + readingsLength (plan ! i)
                       + (\<Sum>j = Suc i..<monthIndex. readingsLength (plan ! j))"
      using True "1.IH" by simp
    also have "\<dots> = daysSoFar + (\<Sum>j = i..<monthIndex. readingsLength (plan ! j))"
      using True by (simp add: sum.atLeast_Suc_lessThan)
    finally show ?thesis .
  next
    case False
    then show ?thesis using "1.prems" by (subst daysSoFarLoop.simps) simp
  qed
qed

lemma sum_take_nth:
  "k \<le> length xs \<Longrightarrow> (\<Sum>j = 0..<k. f (xs ! j)) = sum_list (map f (take k xs))"
proof (induction k)
  case 0
  then show ?case by simp
next
  case (Suc k)
  then have "take (Suc k) xs = take k xs @ [xs ! k]"
    by (simp add: take_Suc_conv_app_nth)
  then show ?case using Suc by simp
qed

lemma readingDayNumber_offset:
  "k \<le> length plan \<Longrightarrow>
     readingDayNumber plan k r = sum_list (map readingsLength (take k plan)) + er_day r"
  by (simp add: readingDayNumber_def daysSoFarLoop_sum sum_take_nth)

lemma findEthiopian_unfold:
  "findEthiopian plan n k =
     (if k < length plan then
        (case monthReadingAt plan n k of
           Some r \<Rightarrow> Some (k, r)
         | None \<Rightarrow> findEthiopian plan n (Suc k))
      else None)"
  by (subst findEthiopian.simps) (simp add: monthReadingAt_def split: option.splits)

lemma findEthiopian_Some_iff:
  "findEthiopian plan n k = Some (j, r) \<longleftrightarrow>
     k \<le> j \<and> j < length plan \<and> monthReadingAt plan n j = Some r
     \<and> (\<forall>i. k \<le> i \<and> i < j \<longrightarrow> monthReadingAt plan n i = None)"
proof (induction "length plan - k" arbitrary: k)
  case 0
  then have "\<not> k < length plan" by simp
  then show ?case by (subst findEthiopian_unfold) auto
next
  case (Suc m)
  then have k: "k < length plan" by simp
  have ih: "findEthiopian plan n (Suc k) = Some (j, r) \<longleftrightarrow>
     Suc k \<le> j \<and> j < length plan \<and> monthReadingAt plan n j = Some r
     \<and> (\<forall>i. Suc k \<le> i \<and> i < j \<longrightarrow> monthReadingAt plan n i = None)"
    using Suc by simp
  show ?case
  proof (cases "monthReadingAt plan n k")
    case None
    then have "findEthiopian plan n k = findEthiopian plan n (Suc k)"
      using k by (subst findEthiopian_unfold) simp
    moreover have "(k \<le> j \<and> j < length plan \<and> monthReadingAt plan n j = Some r
        \<and> (\<forall>i. k \<le> i \<and> i < j \<longrightarrow> monthReadingAt plan n i = None))
      \<longleftrightarrow> (Suc k \<le> j \<and> j < length plan \<and> monthReadingAt plan n j = Some r
        \<and> (\<forall>i. Suc k \<le> i \<and> i < j \<longrightarrow> monthReadingAt plan n i = None))"
      using None
      by (metis Suc_leD Suc_leI le_neq_implies_less not_less_eq_eq option.distinct(1))
    ultimately show ?thesis using ih by simp
  next
    case (Some r0)
    then have f: "findEthiopian plan n k = Some (k, r0)"
      using k by (subst findEthiopian_unfold) simp
    have "(k \<le> j \<and> j < length plan \<and> monthReadingAt plan n j = Some r
        \<and> (\<forall>i. k \<le> i \<and> i < j \<longrightarrow> monthReadingAt plan n i = None))
      \<longleftrightarrow> (j = k \<and> r = r0)"
    proof
      assume a: "k \<le> j \<and> j < length plan \<and> monthReadingAt plan n j = Some r
        \<and> (\<forall>i. k \<le> i \<and> i < j \<longrightarrow> monthReadingAt plan n i = None)"
      have "\<not> k < j"
      proof
        assume "k < j"
        then have "monthReadingAt plan n k = None" using a by simp
        then show False using Some by simp
      qed
      then have "j = k" using a by simp
      then show "j = k \<and> r = r0" using a Some by simp
    next
      assume "j = k \<and> r = r0"
      then show "k \<le> j \<and> j < length plan \<and> monthReadingAt plan n j = Some r
        \<and> (\<forall>i. k \<le> i \<and> i < j \<longrightarrow> monthReadingAt plan n i = None)"
        using Some k by auto
    qed
    then show ?thesis using f by auto
  qed
qed

lemma monthReadingAt_None_iff:
  assumes "i \<le> length plan"
  shows "monthReadingAt plan n i = None \<longleftrightarrow>
     (\<forall>rs. em_readings (plan ! i) = Some rs \<longrightarrow>
        (\<forall>r \<in> set rs. sum_list (map readingsLength (take i plan)) + er_day r \<noteq> n))"
  using assms
  by (auto simp: monthReadingAt_def readingDayNumber_offset find_None_iff split: option.splits)

lemma find_cong_pred:
  "(\<And>x. x \<in> set xs \<Longrightarrow> P x = Q x) \<Longrightarrow> find P xs = find Q xs"
  by (induction xs) simp_all

lemma monthReadingAt_Some_iff:
  assumes "k \<le> length plan" and "em_readings (plan ! k) = Some rs"
    and "find (\<lambda>r. er_day r = d) rs = Some r"
  shows "monthReadingAt plan n k = Some r \<longleftrightarrow>
           n = sum_list (map readingsLength (take k plan)) + d"
proof
  assume "monthReadingAt plan n k = Some r"
  then have "find (\<lambda>r. sum_list (map readingsLength (take k plan)) + er_day r = n) rs = Some r"
    using assms by (simp add: monthReadingAt_def readingDayNumber_offset)
  then have "sum_list (map readingsLength (take k plan)) + er_day r = n"
    by (auto simp: find_Some_iff)
  moreover have "er_day r = d"
    using assms(3) by (auto simp: find_Some_iff)
  ultimately show "n = sum_list (map readingsLength (take k plan)) + d" by simp
next
  assume n: "n = sum_list (map readingsLength (take k plan)) + d"
  have "find (\<lambda>r. sum_list (map readingsLength (take k plan)) + er_day r = n) rs
          = find (\<lambda>r. er_day r = d) rs"
    by (rule find_cong_pred) (simp add: n)
  then show "monthReadingAt plan n k = Some r"
    using assms by (simp add: monthReadingAt_def readingDayNumber_offset)
qed

lemma readingsLength_nonneg: "0 \<le> readingsLength m"
  by (simp add: readingsLength_def split: option.splits)

lemma offset_mono:
  assumes "j < k" and "k \<le> length plan"
  shows "sum_list (map readingsLength (take j plan)) + readingsLength (plan ! j)
           \<le> sum_list (map readingsLength (take k plan))"
proof -
  have s: "take (Suc j) plan = take j plan @ [plan ! j]"
    using assms by (simp add: take_Suc_conv_app_nth)
  have "take k plan = take (Suc j) (take k plan) @ drop (Suc j) (take k plan)"
    by (rule append_take_drop_id [symmetric])
  moreover have "take (Suc j) (take k plan) = take (Suc j) plan"
    using assms by (simp add: min_def)
  ultimately have "take k plan = take (Suc j) plan @ drop (Suc j) (take k plan)"
    by simp
  then have "sum_list (map readingsLength (take k plan))
               = sum_list (map readingsLength (take (Suc j) plan))
                 + sum_list (map readingsLength (drop (Suc j) (take k plan)))"
    by (metis map_append sum_list_append)
  moreover have "0 \<le> sum_list (map readingsLength (drop (Suc j) (take k plan)))"
    by (rule sum_list_nonneg) (auto simp: readingsLength_nonneg)
  ultimately show ?thesis using s by simp
qed

lemma no_earlier_when_in_range:
  assumes "k \<le> length plan" and "1 \<le> d"
    and "\<forall>j<k. \<forall>rs'. em_readings (plan ! j) = Some rs' \<longrightarrow>
           (\<forall>r' \<in> set rs'. er_day r' \<le> int (length rs'))"
  shows "\<forall>j<k. \<forall>rs'. em_readings (plan ! j) = Some rs' \<longrightarrow>
           (\<forall>r' \<in> set rs'. sum_list (map readingsLength (take j plan)) + er_day r'
                             \<noteq> sum_list (map readingsLength (take k plan)) + d)"
proof (intro allI impI ballI)
  fix j rs' r'
  assume j: "j < k" and rs: "em_readings (plan ! j) = Some rs'" and r: "r' \<in> set rs'"
  have "er_day r' \<le> readingsLength (plan ! j)"
    using assms(3) j rs r by (simp add: readingsLength_def)
  then have "sum_list (map readingsLength (take j plan)) + er_day r'
               \<le> sum_list (map readingsLength (take k plan))"
    using offset_mono [OF j assms(1)] by linarith
  then show "sum_list (map readingsLength (take j plan)) + er_day r'
               \<noteq> sum_list (map readingsLength (take k plan)) + d"
    using assms(2) by linarith
qed

lemma getEthiopianReading_found:
  assumes "findEthiopian (ethiopianPlan rp) (fst (calculateDayNumber rp date 365)) 0 = Some (k, r)"
  shows "getEthiopianReading rp date =
           (ethiopianAssignment (fst (calculateDayNumber rp date 365)) (ethiopianPlan rp ! k) r,
            snd (calculateDayNumber rp date 365))"
proof -
  have "k < length (ethiopianPlan rp)"
    using assms by (simp add: findEthiopian_Some_iff)
  then have "ethiopianPlan rp \<noteq> []" by auto
  then show ?thesis
    using assms by (simp add: getEthiopianReading_def split_beta calculateDayNumber_tables)
qed

text \<open>Claim C6, as amended. In a loaded Ethiopian plan whose months have the reading counts
  \<open>c1, c2, \<dots>\<close> (\<open>readingsLength\<close>; 0 for a month without readings), a reading with
  intra-month day \<open>d\<close> in the month at position \<open>k\<close> (counted from 0) resolves to the global
  day number \<open>c1 + \<dots> + ck + d\<close>, the sum running over the earlier months. The lookup returns
  the first reading in plan order whose global day number is the cycle day number: the
  reading with day \<open>d\<close> of month \<open>k\<close> is returned exactly when the cycle day number is that
  sum and no reading of an earlier month resolves to the same number; none does when
  \<open>d \<ge> 1\<close> and the days of the readings of every earlier month do not exceed that month's
  reading count.\<close>

theorem ethiopian_global_day:
  assumes "plan = ethiopianPlan rp"
    and "n = fst (calculateDayNumber rp date 365)"
    and "k < length plan"
    and "em_readings (plan ! k) = Some rs"
    and "find (\<lambda>r. er_day r = d) rs = Some r"
  shows "readingDayNumber plan k r = sum_list (map readingsLength (take k plan)) + d
         \<and> ((findEthiopian plan n 0 = Some (k, r)) =
              (n = sum_list (map readingsLength (take k plan)) + d
               \<and> (\<forall>j<k. \<forall>rs'. em_readings (plan ! j) = Some rs' \<longrightarrow>
                      (\<forall>r' \<in> set rs'.
                         sum_list (map readingsLength (take j plan)) + er_day r' \<noteq> n))))
         \<and> (1 \<le> d \<and> (\<forall>j<k. \<forall>rs'. em_readings (plan ! j) = Some rs' \<longrightarrow>
                          (\<forall>r' \<in> set rs'. er_day r' \<le> int (length rs')))
              \<longrightarrow> (findEthiopian plan n 0 = Some (k, r)) =
                    (n = sum_list (map readingsLength (take k plan)) + d))
         \<and> (findEthiopian plan n 0 = Some (k, r) \<longrightarrow>
              getEthiopianReading rp date =
                (ethiopianAssignment n (plan ! k) r, snd (calculateDayNumber rp date 365)))"
proof -
  have d: "er_day r = d"
    using assms(5) by (auto simp: find_Some_iff)
  have a: "readingDayNumber plan k r = sum_list (map readingsLength (take k plan)) + d"
    using assms(3) d by (simp add: readingDayNumber_offset)
  have e: "(\<forall>i. 0 \<le> i \<and> i < k \<longrightarrow> monthReadingAt plan n i = None) =
           (\<forall>j<k. \<forall>rs'. em_readings (plan ! j) = Some rs' \<longrightarrow>
                      (\<forall>r' \<in> set rs'.
                         sum_list (map readingsLength (take j plan)) + er_day r' \<noteq> n))"
    using assms(3) by (simp add: monthReadingAt_None_iff)
  have m: "monthReadingAt plan n k = Some r \<longleftrightarrow>
             n = sum_list (map readingsLength (take k plan)) + d"
    using assms(3,4,5) by (simp add: monthReadingAt_Some_iff)
  have b: "(findEthiopian plan n 0 = Some (k, r)) =
              (n = sum_list (map readingsLength (take k plan)) + d
               \<and> (\<forall>j<k. \<forall>rs'. em_readings (plan ! j) = Some rs' \<longrightarrow>
                      (\<forall>r' \<in> set rs'.
                         sum_list (map readingsLength (take j plan)) + er_day r' \<noteq> n)))"
    using assms(3) by (simp only: findEthiopian_Some_iff e m) simp
  have c: "findEthiopian plan n 0 = Some (k, r) \<longrightarrow>
              getEthiopianReading rp date =
                (ethiopianAssignment n (plan ! k) r, snd (calculateDayNumber rp date 365))"
    using getEthiopianReading_found [of rp date k r] assms(1,2) by simp
  have w: "1 \<le> d \<and> (\<forall>j<k. \<forall>rs'. em_readings (plan ! j) = Some rs' \<longrightarrow>
                          (\<forall>r' \<in> set rs'. er_day r' \<le> int (length rs')))
              \<longrightarrow> (findEthiopian plan n 0 = Some (k, r)) =
                    (n = sum_list (map readingsLength (take k plan)) + d)"
  proof
    assume h: "1 \<le> d \<and> (\<forall>j<k. \<forall>rs'. em_readings (plan ! j) = Some rs' \<longrightarrow>
                          (\<forall>r' \<in> set rs'. er_day r' \<le> int (length rs')))"
    have "\<forall>j<k. \<forall>rs'. em_readings (plan ! j) = Some rs' \<longrightarrow>
           (\<forall>r' \<in> set rs'. sum_list (map readingsLength (take j plan)) + er_day r'
                             \<noteq> sum_list (map readingsLength (take k plan)) + d)"
      using assms(3) h by (intro no_earlier_when_in_range) simp_all
    then show "(findEthiopian plan n 0 = Some (k, r)) =
                 (n = sum_list (map readingsLength (take k plan)) + d)"
      using b by blast
  qed
  show ?thesis using a b c w by blast
qed

lemma showInt_2: "showInt 2 = ''2''"
  by (simp add: showInt_def showNat.simps)

lemma showInt_4: "showInt 4 = ''4''"
  by (simp add: showInt_def showNat.simps)

theorem ethiopian_global_day_witness:
  "regularPlan = ethiopianPlan (ethiopianState regularPlan (isoDate 2024 1 1))
   \<and> 5 = fst (calculateDayNumber (ethiopianState regularPlan (isoDate 2024 1 1)) (isoDate 2024 1 5) 365)
   \<and> 2 < length regularPlan
   \<and> map readingsLength regularPlan = [2, 1, 3]
   \<and> em_readings (regularPlan ! 2) =
         Some [exampleReading 1 ''Genesis 4'', exampleReading 2 ''Genesis 5'',
               exampleReading 3 ''Genesis 6'']
   \<and> find (\<lambda>r. er_day r = 2)
         [exampleReading 1 ''Genesis 4'', exampleReading 2 ''Genesis 5'',
          exampleReading 3 ''Genesis 6''] = Some (exampleReading 2 ''Genesis 5'')
   \<and> findEthiopian regularPlan 5 0 = Some (2, exampleReading 2 ''Genesis 5'')
   \<and> fst (getEthiopianReading (ethiopianState regularPlan (isoDate 2024 1 1)) (isoDate 2024 1 5))
       = \<lparr>a_day = 5, a_title = ''Hidar Day 2'', a_passages = [Some ''Genesis 5''],
          a_theme = None, a_month = Some ''Hidar'', a_focus = None, a_feast = None,
          a_chapters = 3\<rparr>"
proof -
  let ?rp = "ethiopianState regularPlan (isoDate 2024 1 1)"
  let ?rs = "[exampleReading 1 ''Genesis 4'', exampleReading 2 ''Genesis 5'',
              exampleReading 3 ''Genesis 6'']"
  have p: "regularPlan = ethiopianPlan ?rp"
    by (simp add: ethiopianState_def)
  have n: "5 = fst (calculateDayNumber ?rp (isoDate 2024 1 5) 365)"
    by (simp add: calculateDayNumber_def getStartDate_def ethiopianState_def storageWithStart_def
        isoDate_def daysFromCivil_def msPerDay_def cycleDay_def js_rem_def)
  have k: "2 < length regularPlan"
    by (simp add: regularPlan_def)
  have c: "map readingsLength regularPlan = [2, 1, 3]"
    by (simp add: regularPlan_def readingsLength_def exampleMonth_def)
  have rs: "em_readings (regularPlan ! 2) = Some ?rs"
    by (simp add: regularPlan_def exampleMonth_def)
  have f: "find (\<lambda>r. er_day r = 2) ?rs = Some (exampleReading 2 ''Genesis 5'')"
    by (simp add: exampleReading_def)
  have o: "5 = sum_list (map readingsLength (take 2 regularPlan)) + 2"
    by (simp add: regularPlan_def readingsLength_def exampleMonth_def)
  have e: "\<forall>j<2. \<forall>rs'. em_readings (regularPlan ! j) = Some rs' \<longrightarrow>
             (\<forall>r' \<in> set rs'. sum_list (map readingsLength (take j regularPlan)) + er_day r' \<noteq> 5)"
  proof (intro allI impI)
    fix j :: nat and rs'
    assume "j < 2" and h: "em_readings (regularPlan ! j) = Some rs'"
    then consider "j = 0" | "j = 1" by linarith
    then show "\<forall>r' \<in> set rs'. sum_list (map readingsLength (take j regularPlan)) + er_day r' \<noteq> 5"
    proof cases
      case 1
      then show ?thesis using h
        by (auto simp: regularPlan_def exampleMonth_def exampleReading_def readingsLength_def)
    next
      case 2
      then show ?thesis using h
        by (auto simp: regularPlan_def exampleMonth_def exampleReading_def readingsLength_def)
    qed
  qed
  note t = ethiopian_global_day [OF p n k rs f]
  have s: "findEthiopian regularPlan 5 0 = Some (2, exampleReading 2 ''Genesis 5'')"
    using t o e by blast
  then have "getEthiopianReading ?rp (isoDate 2024 1 5) =
               (ethiopianAssignment 5 (regularPlan ! 2) (exampleReading 2 ''Genesis 5''),
                snd (calculateDayNumber ?rp (isoDate 2024 1 5) 365))"
    using t by blast
  then have g: "fst (getEthiopianReading ?rp (isoDate 2024 1 5))
       = \<lparr>a_day = 5, a_title = ''Hidar Day 2'', a_passages = [Some ''Genesis 5''],
          a_theme = None, a_month = Some ''Hidar'', a_focus = None, a_feast = None,
          a_chapters = 3\<rparr>"
    by (simp add: ethiopianAssignment_def regularPlan_def exampleMonth_def exampleReading_def
        js_or_def truthy_def showStr_def chaptersOr3_def showInt_2)
  show ?thesis using p n k c rs f s g by blast
qed

text \<open>Claim C6 as stated fails: in \<open>sparsePlan\<close> the months have 1, 1 and 2 readings, and on
  cycle day \<open>1 + 1 + 2\<close> the lookup returns the reading of the first month (its day 4), not the
  day-2 reading of the third month.\<close>

theorem ethiopian_global_day_counterexample:
  "map readingsLength sparsePlan = [1, 1, 2]
   \<and> em_readings (sparsePlan ! 2) = Some [exampleReading 1 ''Genesis 3'', exampleReading 2 ''Genesis 4'']
   \<and> fst (calculateDayNumber (ethiopianState sparsePlan (isoDate 2024 1 1)) (isoDate 2024 1 4) 365)
       = 1 + 1 + 2
   \<and> findEthiopian sparsePlan (1 + 1 + 2) 0 = Some (0, exampleReading 4 ''Genesis 1'')
   \<and> findEthiopian sparsePlan (1 + 1 + 2) 0 \<noteq> Some (2, exampleReading 2 ''Genesis 4'')
   \<and> fst (getEthiopianReading (ethiopianState sparsePlan (isoDate 2024 1 1)) (isoDate 2024 1 4))
       = \<lparr>a_day = 4, a_title = ''Meskerem Day 4'', a_passages = [Some ''Genesis 1''],
          a_theme = None, a_month = Some ''Meskerem'', a_focus = None, a_feast = None,
          a_chapters = 3\<rparr>"
proof -
  let ?rp = "ethiopianState sparsePlan (isoDate 2024 1 1)"
  have c: "map readingsLength sparsePlan = [1, 1, 2]"
    by (simp add: sparsePlan_def readingsLength_def exampleMonth_def)
  have rs: "em_readings (sparsePlan ! 2)
              = Some [exampleReading 1 ''Genesis 3'', exampleReading 2 ''Genesis 4'']"
    by (simp add: sparsePlan_def exampleMonth_def)
  have n: "fst (calculateDayNumber ?rp (isoDate 2024 1 4) 365) = 4"
    by (simp add: calculateDayNumber_def getStartDate_def ethiopianState_def storageWithStart_def
        isoDate_def daysFromCivil_def msPerDay_def cycleDay_def js_rem_def)
  have m: "monthReadingAt sparsePlan 4 0 = Some (exampleReading 4 ''Genesis 1'')"
    by (simp add: monthReadingAt_def readingDayNumber_offset sparsePlan_def exampleMonth_def
        exampleReading_def)
  have s: "findEthiopian sparsePlan 4 0 = Some (0, exampleReading 4 ''Genesis 1'')"
    using m by (simp add: findEthiopian_Some_iff sparsePlan_def)
  have "findEthiopian (ethiopianPlan ?rp) (fst (calculateDayNumber ?rp (isoDate 2024 1 4) 365)) 0
          = Some (0, exampleReading 4 ''Genesis 1'')"
    using s n by (simp add: ethiopianState_def)
  then have "getEthiopianReading ?rp (isoDate 2024 1 4) =
               (ethiopianAssignment 4 (sparsePlan ! 0) (exampleReading 4 ''Genesis 1''),
                snd (calculateDayNumber ?rp (isoDate 2024 1 4) 365))"
    using getEthiopianReading_found [of ?rp "isoDate 2024 1 4" 0 "exampleReading 4 ''Genesis 1''"] n
    by (simp add: ethiopianState_def)
  then have g: "fst (getEthiopianReading ?rp (isoDate 2024 1 4))
       = \<lparr>a_day = 4, a_title = ''Meskerem Day 4'', a_passages = [Some ''Genesis 1''],
          a_theme = None, a_month = Some ''Meskerem'', a_focus = None, a_feast = None,
          a_chapters = 3\<rparr>"
    by (simp add: ethiopianAssignment_def sparsePlan_def exampleMonth_def exampleReading_def
        js_or_def truthy_def showStr_def chaptersOr3_def showInt_4)
  show ?thesis using c rs n s g by simp
qed

lemma offset_zero_iff:
  assumes "k \<le> length plan"
  shows "sum_list (map readingsLength (take k plan)) = 0
           \<longleftrightarrow> (\<forall>j<k. readingsLength (plan ! j) = 0)"
proof -
  have e: "sum_list (map readingsLength (take k plan)) = (\<Sum>j = 0..<k. readingsLength (plan ! j))"
    using assms by (simp add: sum_take_nth)
  have z: "((\<Sum>j = 0..<k. readingsLength (plan ! j)) = 0)
             = (\<forall>j \<in> {0..<k}. readingsLength (plan ! j) = 0)"
    by (rule sum_nonneg_eq_0_iff) (simp_all add: readingsLength_nonneg)
  show ?thesis using e z by auto
qed

text \<open>Claim C10, as amended. When the Ethiopian lookup finds a reading, the assignment's
  \<^verbatim>\<open>day\<close> is the cycle day number, which is the sum of the reading counts of the earlier
  months plus the reading's intra-month day, while the title embeds the intra-month day.
  The number in the title differs from \<^verbatim>\<open>day\<close> exactly when some earlier month has at
  least one reading.\<close>

theorem ethiopian_title_and_day:
  assumes "plan = ethiopianPlan rp"
    and "n = fst (calculateDayNumber rp date 365)"
    and "findEthiopian plan n 0 = Some (k, r)"
  shows "\<exists>a rp'. getEthiopianReading rp date = (a, rp')
           \<and> a_day a = n
           \<and> a_day a = sum_list (map readingsLength (take k plan)) + er_day r
           \<and> a_feast a = js_or (er_feast r) (em_feast (plan ! k))
           \<and> a_title a = showStr (em_name (plan ! k)) @ '' Day '' @ showInt (er_day r)
                            @ (if truthy (a_feast a) then '' - '' @ showStr (a_feast a) else [])
           \<and> ((er_day r \<noteq> a_day a) = (\<exists>j<k. readingsLength (plan ! j) \<noteq> 0))"
proof -
  let ?a = "ethiopianAssignment n (plan ! k) r"
  have k: "k < length plan" and m: "monthReadingAt plan n k = Some r"
    using assms(3) by (simp_all add: findEthiopian_Some_iff)
  obtain rs where "em_readings (plan ! k) = Some rs"
    and "find (\<lambda>r. readingDayNumber plan k r = n) rs = Some r"
    using m by (auto simp: monthReadingAt_def split: option.splits)
  then have "readingDayNumber plan k r = n"
    by (auto simp: find_Some_iff)
  then have o: "n = sum_list (map readingsLength (take k plan)) + er_day r"
    using k by (simp add: readingDayNumber_offset)
  have g: "getEthiopianReading rp date = (?a, snd (calculateDayNumber rp date 365))"
    using getEthiopianReading_found [of rp date k r] assms by simp
  have d: "a_day ?a = n"
    by (simp add: ethiopianAssignment_def Let_def)
  have f: "a_feast ?a = js_or (er_feast r) (em_feast (plan ! k))"
    by (simp add: ethiopianAssignment_def Let_def)
  have t: "a_title ?a = showStr (em_name (plan ! k)) @ '' Day '' @ showInt (er_day r)
                            @ (if truthy (a_feast ?a) then '' - '' @ showStr (a_feast ?a) else [])"
    by (simp add: ethiopianAssignment_def Let_def)
  have "(er_day r \<noteq> n) = (sum_list (map readingsLength (take k plan)) \<noteq> 0)"
    using o by simp
  also have "\<dots> = (\<exists>j<k. readingsLength (plan ! j) \<noteq> 0)"
    using k by (simp add: offset_zero_iff)
  finally have x: "(er_day r \<noteq> a_day ?a) = (\<exists>j<k. readingsLength (plan ! j) \<noteq> 0)"
    using d by simp
  show ?thesis using g d o f t x by (metis (no_types, lifting))
qed

theorem ethiopian_title_and_day_witness:
  "regularPlan = ethiopianPlan (ethiopianState regularPlan (isoDate 2024 1 1))
   \<and> 5 = fst (calculateDayNumber (ethiopianState regularPlan (isoDate 2024 1 1)) (isoDate 2024 1 5) 365)
   \<and> findEthiopian regularPlan 5 0 = Some (2, exampleReading 2 ''Genesis 5'')
   \<and> (\<exists>a rp'. getEthiopianReading (ethiopianState regularPlan (isoDate 2024 1 1)) (isoDate 2024 1 5)
                 = (a, rp')
          \<and> a_day a = 5 \<and> a_title a = ''Hidar Day 2''
          \<and> er_day (exampleReading 2 ''Genesis 5'') \<noteq> a_day a)"
proof -
  let ?rp = "ethiopianState regularPlan (isoDate 2024 1 1)"
  let ?r = "exampleReading 2 ''Genesis 5''"
  have p: "regularPlan = ethiopianPlan ?rp"
    by (simp add: ethiopianState_def)
  have n: "5 = fst (calculateDayNumber ?rp (isoDate 2024 1 5) 365)"
    by (simp add: calculateDayNumber_def getStartDate_def ethiopianState_def storageWithStart_def
        isoDate_def daysFromCivil_def msPerDay_def cycleDay_def js_rem_def)
  have m0: "monthReadingAt regularPlan 5 0 = None"
    by (simp add: monthReadingAt_def readingDayNumber_offset regularPlan_def exampleMonth_def
        exampleReading_def)
  have m1: "monthReadingAt regularPlan 5 1 = None"
    by (simp add: monthReadingAt_def readingDayNumber_offset regularPlan_def exampleMonth_def
        exampleReading_def readingsLength_def)
  have m2: "monthReadingAt regularPlan 5 2 = Some ?r"
    by (simp add: monthReadingAt_def readingDayNumber_offset regularPlan_def exampleMonth_def
        exampleReading_def readingsLength_def)
  have "\<forall>i. 0 \<le> i \<and> i < 2 \<longrightarrow> monthReadingAt regularPlan 5 i = None"
    using m0 m1 by (auto simp: less_2_cases_iff)
  then have s: "findEthiopian regularPlan 5 0 = Some (2, ?r)"
    using m2 by (simp add: findEthiopian_Some_iff regularPlan_def)
  obtain a rp' where g: "getEthiopianReading ?rp (isoDate 2024 1 5) = (a, rp')"
    and d: "a_day a = 5"
    and f: "a_feast a = js_or (er_feast ?r) (em_feast (regularPlan ! 2))"
    and t: "a_title a = showStr (em_name (regularPlan ! 2)) @ '' Day '' @ showInt (er_day ?r)
                            @ (if truthy (a_feast a) then '' - '' @ showStr (a_feast a) else [])"
    using ethiopian_title_and_day [OF p n s] by blast
  have "a_feast a = None"
    using f by (simp add: js_or_def truthy_def regularPlan_def exampleMonth_def exampleReading_def)
  then have "a_title a = ''Hidar Day 2''"
    using t by (simp add: truthy_def showStr_def regularPlan_def exampleMonth_def
        exampleReading_def showInt_2)
  moreover have "er_day ?r \<noteq> a_day a"
    using d by (simp add: exampleReading_def)
  ultimately show ?thesis using p n s g d by blast
qed

text \<open>Claim C10 as stated fails: in \<open>emptyFirstPlan\<close> the reading found on cycle day 1 belongs
  to the second month, and the title shows the same number as the \<^verbatim>\<open>day\<close> field.\<close>

theorem ethiopian_title_and_day_counterexample:
  "findEthiopian emptyFirstPlan 1 0 = Some (1, exampleReading 1 ''Genesis 1'')
   \<and> fst (calculateDayNumber (ethiopianState emptyFirstPlan (isoDate 2024 1 1)) (isoDate 2024 1 1) 365) = 1
   \<and> fst (getEthiopianReading (ethiopianState emptyFirstPlan (isoDate 2024 1 1)) (isoDate 2024 1 1))
       = \<lparr>a_day = 1, a_title = ''Tikimt Day 1'', a_passages = [Some ''Genesis 1''],
          a_theme = None, a_month = Some ''Tikimt'', a_focus = None, a_feast = None,
          a_chapters = 3\<rparr>
   \<and> er_day (exampleReading 1 ''Genesis 1'')
       = a_day (fst (getEthiopianReading (ethiopianState emptyFirstPlan (isoDate 2024 1 1))
                       (isoDate 2024 1 1)))"
proof -
  let ?rp = "ethiopianState emptyFirstPlan (isoDate 2024 1 1)"
  let ?r = "exampleReading 1 ''Genesis 1''"
  have n: "fst (calculateDayNumber ?rp (isoDate 2024 1 1) 365) = 1"
    by (simp add: calculateDayNumber_def getStartDate_def ethiopianState_def storageWithStart_def
        cycleDay_zero)
  have m0: "monthReadingAt emptyFirstPlan 1 0 = None"
    by (simp add: monthReadingAt_def emptyFirstPlan_def exampleMonth_def)
  have m1: "monthReadingAt emptyFirstPlan 1 1 = Some ?r"
    by (simp add: monthReadingAt_def readingDayNumber_offset emptyFirstPlan_def exampleMonth_def
        exampleReading_def readingsLength_def)
  have "\<forall>i. 0 \<le> i \<and> i < 1 \<longrightarrow> monthReadingAt emptyFirstPlan 1 i = None"
    using m0 by auto
  then have s: "findEthiopian emptyFirstPlan 1 0 = Some (1, ?r)"
    using m1 by (simp add: findEthiopian_Some_iff emptyFirstPlan_def)
  have "findEthiopian (ethiopianPlan ?rp) (fst (calculateDayNumber ?rp (isoDate 2024 1 1) 365)) 0
          = Some (1, ?r)"
    using s n by (simp add: ethiopianState_def)
  then have "getEthiopianReading ?rp (isoDate 2024 1 1) =
               (ethiopianAssignment 1 (emptyFirstPlan ! 1) ?r,
                snd (calculateDayNumber ?rp (isoDate 2024 1 1) 365))"
    using getEthiopianReading_found [of ?rp "isoDate 2024 1 1" 1 ?r] n
    by (simp add: ethiopianState_def)
  then have g: "fst (getEthiopianReading ?rp (isoDate 2024 1 1))
       = \<lparr>a_day = 1, a_title = ''Tikimt Day 1'', a_passages = [Some ''Genesis 1''],
          a_theme = None, a_month = Some ''Tikimt'', a_focus = None, a_feast = None,
          a_chapters = 3\<rparr>"
    by (simp add: ethiopianAssignment_def emptyFirstPlan_def exampleMonth_def exampleReading_def
        js_or_def truthy_def showStr_def chaptersOr3_def showInt_def showNat.simps)
  have "er_day ?r = a_day (fst (getEthiopianReading ?rp (isoDate 2024 1 1)))"
    by (simp only: g) (simp add: exampleReading_def)
  then show ?thesis using n s g by simp
qed

subsection \<open>Double precision and the cycle\<close>

lemma nearestEven_int: "nearestEven (of_int d) = d"
  by (simp add: nearestEven_def)

lemma nearestEven_error: "\<bar>of_int (nearestEven x) - x\<bar> \<le> 1 / 2"
proof -
  have "of_int \<lfloor>x\<rfloor> \<le> x" and "x < of_int \<lfloor>x\<rfloor> + 1" by linarith+
  then show ?thesis by (auto simp: nearestEven_def Let_def)
qed

lemma roundSignificand_int:
  "\<bar>d\<bar> < 2 ^ 53 \<Longrightarrow> roundSignificand n (of_int d) = of_int d"
proof (induction n arbitrary: d)
  case 0
  then show ?case by simp
next
  case (Suc n)
  have a: "\<bar>(of_int d :: rat)\<bar> < 2 ^ 53"
    using Suc.prems by (metis of_int_abs of_int_less_numeral_power_cancel_iff)
  show ?case
  proof (cases "\<bar>(of_int d :: rat)\<bar> < 2 ^ 52")
    case True
    then have "\<bar>d\<bar> < 2 ^ 52"
      by (metis of_int_abs of_int_less_numeral_power_cancel_iff)
    then have "\<bar>2 * d\<bar> < 2 ^ 53" by simp
    then have "roundSignificand n (of_int (2 * d)) = of_int (2 * d)"
      by (rule Suc.IH)
    then show ?thesis using True a by simp
  next
    case False
    then show ?thesis using a by (simp add: nearestEven_int)
  qed
qed

lemma roundSignificand_error:
  "\<bar>roundSignificand n x - x\<bar> \<le> \<bar>x\<bar> / 2 ^ 53"
proof (induction n arbitrary: x)
  case 0
  then show ?case by simp
next
  case (Suc n)
  consider "2 ^ 53 \<le> \<bar>x\<bar>" | "\<bar>x\<bar> < 2 ^ 52" | "2 ^ 52 \<le> \<bar>x\<bar>" "\<bar>x\<bar> < 2 ^ 53"
    by linarith
  then show ?case
  proof cases
    case 1
    have "\<bar>roundSignificand n (x / 2) - x / 2\<bar> \<le> \<bar>x / 2\<bar> / 2 ^ 53"
      by (rule Suc.IH)
    then have "\<bar>2 * roundSignificand n (x / 2) - x\<bar> \<le> \<bar>x\<bar> / 2 ^ 53"
      by (simp add: abs_if split: if_splits)
    then show ?thesis using 1 by simp
  next
    case 2
    have "\<bar>roundSignificand n (2 * x) - 2 * x\<bar> \<le> \<bar>2 * x\<bar> / 2 ^ 53"
      by (rule Suc.IH)
    then have "\<bar>roundSignificand n (2 * x) / 2 - x\<bar> \<le> \<bar>x\<bar> / 2 ^ 53"
      by (simp add: abs_if split: if_splits)
    then show ?thesis using 2 by simp
  next
    case 3
    have "\<bar>of_int (nearestEven x) - x\<bar> \<le> 1 / 2"
      by (rule nearestEven_error)
    moreover have "(1::rat) / 2 \<le> \<bar>x\<bar> / 2 ^ 53"
      using 3 by simp
    ultimately have "\<bar>of_int (nearestEven x) - x\<bar> \<le> \<bar>x\<bar> / 2 ^ 53"
      by linarith
    then show ?thesis using 3 by simp
  qed
qed

lemma toDouble_int: "\<bar>d\<bar> < 2 ^ 53 \<Longrightarrow> toDouble (of_int d) = of_int d"
  by (simp add: toDouble_def roundSignificand_int)

lemma toDouble_error: "\<bar>toDouble x - x\<bar> \<le> \<bar>x\<bar> / 2 ^ 53"
proof (cases "x = 0")
  case True
  then show ?thesis by (simp add: toDouble_def)
next
  case False
  then have "toDouble x = roundSignificand 2200 x" by (simp add: toDouble_def)
  then show ?thesis by (simp only: roundSignificand_error)
qed

lemma floor_toDouble_quotient:
  assumes "\<bar>d\<bar> < 2 ^ 53" and "0 < D"
  shows "\<lfloor>toDouble (of_int d / of_int D)\<rfloor> = d div D"
proof (cases "d mod D = 0")
  case True
  let ?q = "d div D"
  have d: "d = D * ?q" using True by auto
  have "(of_int d :: rat) = of_int D * of_int ?q"
    by (subst d) (simp only: of_int_mult)
  then have x: "(of_int d :: rat) / of_int D = of_int ?q"
    using assms(2) by simp
  have "1 * \<bar>?q\<bar> \<le> \<bar>D\<bar> * \<bar>?q\<bar>"
    using assms(2) by (intro mult_right_mono) simp_all
  then have "\<bar>?q\<bar> \<le> \<bar>D * ?q\<bar>" by (simp add: abs_mult)
  then have "\<bar>?q\<bar> \<le> \<bar>d\<bar>" using d by simp
  then have "\<bar>?q\<bar> < 2 ^ 53" using assms(1) by linarith
  then show ?thesis by (simp only: x toDouble_int floor_of_int)
next
  case False
  let ?x = "(of_int d :: rat) / of_int D"
  let ?q = "d div D"
  let ?r = "d mod D"
  have D: "(0::rat) < of_int D" using assms(2) by simp
  have r: "1 \<le> ?r" "?r + 1 \<le> D"
    using False assms(2) pos_mod_sign [of D d] pos_mod_bound [of D d] by linarith+
  have r1: "(1::rat) \<le> of_int ?r" using r(1) by linarith
  have r2: "(of_int ?r :: rat) + 1 \<le> of_int D" using r(2) by linarith
  have "d = D * ?q + ?r" by simp
  then have "(of_int d :: rat) = of_int (D * ?q + ?r)" by simp
  then have "(of_int d :: rat) = of_int D * of_int ?q + of_int ?r"
    by (simp only: of_int_add of_int_mult)
  then have x: "?x = of_int ?q + of_int ?r / of_int D"
    using D by (simp add: field_simps)
  have "(1::rat) / of_int D \<le> of_int ?r / of_int D"
    using r1 D by (simp add: divide_le_cancel)
  then have lo: "of_int ?q + 1 / of_int D \<le> ?x"
    by (simp only: x add_le_cancel_left)
  have "(of_int ?r + 1 :: rat) / of_int D \<le> 1"
    using r2 D by simp
  then have "(of_int ?r :: rat) / of_int D + 1 / of_int D \<le> 1"
    by (simp only: add_divide_distrib)
  then have hi: "?x + 1 / of_int D \<le> of_int ?q + 1"
    by (simp only: x)
  have a: "\<bar>(of_int d :: rat)\<bar> < 2 ^ 53"
  proof -
    have "(of_int \<bar>d\<bar> :: rat) < of_int (2 ^ 53)"
      using assms(1) by (simp only: of_int_less_iff)
    then show ?thesis by simp
  qed
  have "\<bar>?x\<bar> = \<bar>(of_int d :: rat)\<bar> / of_int D"
    using D by (simp add: abs_divide)
  then have "\<bar>?x\<bar> / 2 ^ 53 = (\<bar>(of_int d :: rat)\<bar> / 2 ^ 53) / of_int D"
    by simp
  moreover have "\<bar>(of_int d :: rat)\<bar> / 2 ^ 53 < 1"
    using a by simp
  ultimately have "\<bar>?x\<bar> / 2 ^ 53 < 1 / of_int D"
    using D by (simp only: divide_strict_right_mono)
  then have e: "\<bar>toDouble ?x - ?x\<bar> < 1 / of_int D"
    using toDouble_error [of ?x] by linarith
  have "of_int ?q \<le> toDouble ?x" and "toDouble ?x < of_int ?q + 1"
    using lo hi e by linarith+
  then show ?thesis by (simp only: floor_unique)
qed

lemma diffDaysIEEE_exact:
  assumes "\<bar>date - startDate\<bar> < 2 ^ 53"
  shows "diffDaysIEEE date startDate = (date - startDate) div msPerDay"
proof -
  have "toDouble (of_int date - of_int startDate) = of_int (date - startDate)"
    using toDouble_int [OF assms] by simp
  then show ?thesis
    using floor_toDouble_quotient [OF assms, of msPerDay]
    by (simp add: diffDaysIEEE_def msPerDay_pos)
qed

lemma calculateDayNumberIEEE_exact:
  assumes "\<forall>start. getStartDate (storage rp) (currentPlanType rp) = Some start
             \<longrightarrow> \<bar>date - start\<bar> < 2 ^ 53"
  shows "calculateDayNumberIEEE rp date L = calculateDayNumber rp date L"
  using assms
  by (simp add: calculateDayNumberIEEE_def calculateDayNumber_def Let_def diffDaysIEEE_exact
      split: option.splits)

text \<open>Claim C9, as amended. The day number is cyclical within the range in which the
  source's double arithmetic is exact: for every state, every cycle length \<open>L > 0\<close> and every
  today such that today and today moved forward by \<open>L\<close> days both differ from the stored
  start date by less than \<open>2 ^ 53\<close> ms, moving today forward by exactly \<open>L\<close> days leaves
  the day number unchanged. This holds of the integer computation and of the computation
  in doubles.\<close>

theorem calculateDayNumber_cyclical:
  assumes "0 < L"
    and "\<forall>start. getStartDate (storage rp) (currentPlanType rp) = Some start
           \<longrightarrow> \<bar>today - start\<bar> < 2 ^ 53 \<and> \<bar>today + L * msPerDay - start\<bar> < 2 ^ 53"
  shows "fst (calculateDayNumber rp (today + L * msPerDay) L) = fst (calculateDayNumber rp today L)
         \<and> fst (calculateDayNumberIEEE rp (today + L * msPerDay) L)
             = fst (calculateDayNumberIEEE rp today L)"
proof -
  have "(today + L * msPerDay - s) div msPerDay = (today - s) div msPerDay + L" for s
  proof -
    have "today + L * msPerDay - s = (today - s) + L * msPerDay" by simp
    then show ?thesis by (simp add: msPerDay_def)
  qed
  then have m: "fst (calculateDayNumber rp (today + L * msPerDay) L)
                  = fst (calculateDayNumber rp today L)"
    using assms(1) by (simp add: calculateDayNumber_fst cycleDay_mod split: option.splits)
  have a: "calculateDayNumberIEEE rp today L = calculateDayNumber rp today L"
    using assms(2) by (intro calculateDayNumberIEEE_exact) simp
  have b: "calculateDayNumberIEEE rp (today + L * msPerDay) L
             = calculateDayNumber rp (today + L * msPerDay) L"
    using assms(2) by (intro calculateDayNumberIEEE_exact) simp
  show ?thesis using m a b by simp
qed

theorem calculateDayNumber_cyclical_witness:
  "(0::int) < 90
   \<and> \<bar>isoDate 2024 1 11 - isoDate 2024 1 1\<bar> < 2 ^ 53
   \<and> \<bar>isoDate 2024 1 11 + 90 * msPerDay - isoDate 2024 1 1\<bar> < 2 ^ 53
   \<and> fst (calculateDayNumber (unloadedPlans (storageWithStart (isoDate 2024 1 1)))
              (isoDate 2024 1 11 + 90 * msPerDay) 90) = 11
   \<and> fst (calculateDayNumberIEEE (unloadedPlans (storageWithStart (isoDate 2024 1 1)))
              (isoDate 2024 1 11 + 90 * msPerDay) 90) = 11"
proof -
  let ?rp = "unloadedPlans (storageWithStart (isoDate 2024 1 1))"
  have h: "(0::int) < 90" by simp
  have b1: "\<bar>isoDate 2024 1 11 - isoDate 2024 1 1\<bar> < 2 ^ 53"
    by (simp add: isoDate_def daysFromCivil_def msPerDay_def)
  have b2: "\<bar>isoDate 2024 1 11 + 90 * msPerDay - isoDate 2024 1 1\<bar> < 2 ^ 53"
    by (simp add: isoDate_def daysFromCivil_def msPerDay_def)
  have g: "getStartDate (storage ?rp) (currentPlanType ?rp) = Some start
             \<longleftrightarrow> start = isoDate 2024 1 1" for start
    by (auto simp: getStartDate_def unloadedPlans_def storageWithStart_def)
  have b: "\<forall>start. getStartDate (storage ?rp) (currentPlanType ?rp) = Some start
           \<longrightarrow> \<bar>isoDate 2024 1 11 - start\<bar> < 2 ^ 53
               \<and> \<bar>isoDate 2024 1 11 + 90 * msPerDay - start\<bar> < 2 ^ 53"
    using b1 b2 by (simp add: g)
  have e: "fst (calculateDayNumber ?rp (isoDate 2024 1 11) 90) = 11"
    by (simp add: calculateDayNumber_def getStartDate_def unloadedPlans_def storageWithStart_def
        isoDate_def daysFromCivil_def msPerDay_def cycleDay_def js_rem_def)
  have i: "fst (calculateDayNumberIEEE ?rp (isoDate 2024 1 11) 90) = 11"
    using e b by (simp add: calculateDayNumberIEEE_exact)
  show ?thesis
    using h b1 b2 e i calculateDayNumber_cyclical [OF h b] by simp
qed

lemma nearestEven_tie: "nearestEven (9007206998399999 / 2) = 4503603499200000"
  by code_simp

lemma roundSignificand_far:
  "roundSignificand (Suc (Suc n)) 9007206998399999 = 9007206998400000"
  by (simp add: nearestEven_tie)

lemma toDouble_far: "toDouble 9007206998399999 = 9007206998400000"
proof -
  have "(2200::nat) = Suc (Suc 2198)" by simp
  then show ?thesis by (simp only: toDouble_def roundSignificand_far) simp
qed

lemma diffDaysIEEE_far: "diffDaysIEEE (farDate + 90 * msPerDay) earliestDate = 104250081"
proof -
  have "(of_int (farDate + 90 * msPerDay) :: rat) - of_int earliestDate = 9007206998399999"
    by (simp add: farDate_def earliestDate_def msPerDay_def)
  then have "toDouble (of_int (farDate + 90 * msPerDay) - of_int earliestDate) / of_int msPerDay
               = of_int 104250081"
    by (simp only: toDouble_far) (simp add: msPerDay_def)
  moreover have "toDouble (of_int 104250081) = of_int 104250081"
    by (rule toDouble_int) simp
  ultimately show ?thesis
    by (simp only: diffDaysIEEE_def Let_def floor_of_int)
qed

text \<open>Claim C9 as stated fails: with the start date at the earliest valid \<^verbatim>\<open>Date\<close> and today
  367199222399999, the difference of today moved forward by ninety days and the start date
  exceeds \<open>2 ^ 53\<close> and is rounded up to the next day boundary, so that the day numbers of
  the two dates for the cycle length 90 are 21 and 22.\<close>

theorem calculateDayNumber_cyclical_counterexample:
  "(0::int) < 90
   \<and> getStartDate (storage (unloadedPlans (storageWithStart earliestDate)))
        (currentPlanType (unloadedPlans (storageWithStart earliestDate))) = Some earliestDate
   \<and> fst (calculateDayNumberIEEE (unloadedPlans (storageWithStart earliestDate)) farDate 90) = 21
   \<and> fst (calculateDayNumberIEEE (unloadedPlans (storageWithStart earliestDate))
              (farDate + 90 * msPerDay) 90) = 22"
proof -
  let ?rp = "unloadedPlans (storageWithStart earliestDate)"
  have g: "getStartDate (storage ?rp) (currentPlanType ?rp) = Some earliestDate"
    by (simp add: getStartDate_def unloadedPlans_def storageWithStart_def)
  have "\<bar>farDate - earliestDate\<bar> < 2 ^ 53"
    by (simp add: farDate_def earliestDate_def)
  then have "diffDaysIEEE farDate earliestDate = (farDate - earliestDate) div msPerDay"
    by (rule diffDaysIEEE_exact)
  then have a: "fst (calculateDayNumberIEEE ?rp farDate 90) = 21"
    using g by (simp add: calculateDayNumberIEEE_def farDate_def earliestDate_def msPerDay_def
        cycleDay_def js_rem_def)
  have b: "fst (calculateDayNumberIEEE ?rp (farDate + 90 * msPerDay) 90) = 22"
    using g by (simp add: calculateDayNumberIEEE_def diffDaysIEEE_far cycleDay_def js_rem_def)
  show ?thesis using g a b by simp
qed

end
